theory Spec2Isabelle
  imports Main
begin

section \<open>Data model of the booking-field reconciler\<close>

text \<open>
  The development follows \<^verbatim>\<open>getBookingFieldsWithSystemFields\<close> and
  \<^verbatim>\<open>ensureBookingInputsHaveSystemFields\<close>.  A JavaScript object with optional keys is a
  record whose optional properties have an \<open>option\<close> type: \<open>None\<close> is an absent key.
  Only \<open>name\<close> and \<open>type\<close> are always present on a field.  The properties of a record are
  the ones that the source reads or writes; the schemas that list all of them are
  imported by the source and not part of it.
\<close>

datatype error = ValidationError | TypeError

text \<open>The field types that the source names; every other member of the enumeration is \<open>ft_other\<close>.\<close>

datatype BookingFieldType =
    ft_name | ft_email | ft_radioInput | ft_address | ft_phone | ft_textarea | ft_multiemail
  | ft_text | ft_number | ft_boolean | ft_radio | ft_other string

datatype Editable = ed_system | ed_system_but_optional | ed_user

datatype EventTypeCustomInputType = TEXT | TEXTLONG | NUMBER | BOOL | RADIO | PHONE

datatype WorkflowActions = SMS_ATTENDEE | other_action string

record source =
  src_id :: string
  src_type :: string
  src_label :: string
  fieldRequired :: "bool option"
  editUrl :: "string option"

text \<open>One choice of an enumerated field; a legacy choice carries a label only.\<close>

record choice =
  opt_label :: string
  opt_value :: "string option"

record option_input =
  oi_type :: BookingFieldType
  oi_required :: bool
  oi_placeholder :: string

record variant_field =
  vf_name :: string
  vf_type :: BookingFieldType
  vf_label :: string
  vf_required :: bool

record variantsConfig =
  defaultVariant :: string
  variants :: "(string \<times> variant_field list) list"

record view =
  view_id :: string
  view_label :: string

record fieldsMap_entry =
  fm_defaultLabel :: string
  fm_defaultPlaceholder :: "string option"
  canChangeRequirability :: bool

record variant_config =
  vc_label :: string
  fieldsMap :: "(string \<times> fieldsMap_entry) list"

record FieldTypeConfig =
  toggleLabel :: string
  cfg_variants :: "(string \<times> variant_config) list"

record field =
  name :: string
  type :: BookingFieldType
  label :: "string option"
  defaultLabel :: "string option"
  placeholder :: "string option"
  defaultPlaceholder :: "string option"
  required :: "bool option"
  editable :: "Editable option"
  hidden :: "bool option"
  hideWhenJustOneOption :: "bool option"
  getOptionsAt :: "string option"
  options :: "choice list option"
  optionsInputs :: "(string \<times> option_input) list option"
  sources :: "source list option"
  variantsConfig :: "variantsConfig option"
  views :: "view list option"
  fieldTypeConfig :: "FieldTypeConfig option"

record customInput =
  ci_label :: string
  ci_type :: EventTypeCustomInputType
  ci_required :: bool
  ci_placeholder :: "string option"
  ci_options :: "choice list option"

record step =
  action :: WorkflowActions
  numberRequired :: "bool option"

record Workflow =
  wf_id :: int
  steps :: "step list"

record WorkflowOnEventType =
  workflow :: Workflow

record metadata =
  md_additionalNotesRequired :: "bool option"

text \<open>The argument object of \<^verbatim>\<open>ensureBookingInputsHaveSystemFields\<close>.\<close>

record args =
  bookingFields :: "field list"
  disableGuests :: bool
  additionalNotesRequired :: bool
  customInputs :: "customInput list"
  workflows :: "WorkflowOnEventType list"

text \<open>
  Untyped values as they reach \<^verbatim>\<open>getBookingFieldsWithSystemFields\<close> from storage
  (numbers restricted to integers).
\<close>

datatype json =
    JUndefined | JNull | JBool bool | JNum int | JStr string
  | JArr "json list" | JObj "(string \<times> json) list"

record raw_args =
  raw_bookingFields :: json
  raw_disableGuests :: bool
  raw_customInputs :: json
  raw_metadata :: json
  raw_workflows :: "WorkflowOnEventType list option"

text \<open>
  The collaborators that are imported by the source and not part of it: the slug
  generator and the three schemas.  A schema applied to an untyped value either fails or
  yields the typed value.  \<open>brand_ok\<close> says which typed field lists the branded field-list
  schema accepts.
\<close>

record externals =
  slugify :: "string \<Rightarrow> string"
  EventTypeMetaDataSchema_parse :: "json \<Rightarrow> error + metadata option"
  eventTypeBookingFields_parse :: "json \<Rightarrow> error + field list"
  customInputSchema_array_parse :: "json \<Rightarrow> error + customInput list"
  brand_ok :: "field list \<Rightarrow> bool"

section \<open>Strings\<close>

definition digit_char :: "nat \<Rightarrow> char" where
  "digit_char n = ''0123456789'' ! (n mod 10)"

function string_of_nat :: "nat \<Rightarrow> string" where
  "string_of_nat n =
     (if n < 10 then [digit_char n] else string_of_nat (n div 10) @ [digit_char (n mod 10)])"
  by pat_completeness auto
termination
  by (relation "measure (\<lambda>n. n)") auto

declare string_of_nat.simps [simp del]

text \<open>\<^verbatim>\<open>"" + n\<close> for an integer \<open>n\<close>.\<close>

definition string_of_int :: "int \<Rightarrow> string" where
  "string_of_int i = (if i < 0 then CHR ''-'' # string_of_nat (nat (- i)) else string_of_nat (nat i))"

text \<open>\<^verbatim>\<open>toUpperCase\<close> and \<^verbatim>\<open>toLowerCase\<close> on one ASCII character; the source applies them to
  the values of the enumeration \<^verbatim>\<open>EventTypeCustomInputType\<close> only.\<close>

definition toUpperCase_char :: "char \<Rightarrow> char" where
  "toUpperCase_char c =
     (if (97::nat) \<le> of_char c \<and> of_char c \<le> (122::nat) then char_of (of_char c - (32::nat)) else c)"

definition toLowerCase_char :: "char \<Rightarrow> char" where
  "toLowerCase_char c =
     (if (65::nat) \<le> of_char c \<and> of_char c \<le> (90::nat) then char_of (of_char c + (32::nat)) else c)"

text \<open>\<^verbatim>\<open>s[0].toUpperCase() + s.slice(1).toLowerCase()\<close>; \<^verbatim>\<open>s[0]\<close> of the empty string is
  \<^verbatim>\<open>undefined\<close> and the method call on it throws.\<close>

fun upperCaseToCamelCase :: "string \<Rightarrow> error + string" where
  "upperCaseToCamelCase [] = Inl TypeError"
| "upperCaseToCamelCase (c # cs) = Inr (toUpperCase_char c # map toLowerCase_char cs)"

fun EventTypeCustomInputType_value :: "EventTypeCustomInputType \<Rightarrow> string" where
  "EventTypeCustomInputType_value TEXT = ''TEXT''"
| "EventTypeCustomInputType_value TEXTLONG = ''TEXTLONG''"
| "EventTypeCustomInputType_value NUMBER = ''NUMBER''"
| "EventTypeCustomInputType_value BOOL = ''BOOL''"
| "EventTypeCustomInputType_value RADIO = ''RADIO''"
| "EventTypeCustomInputType_value PHONE = ''PHONE''"

section \<open>Constants of the source\<close>

definition SMS_REMINDER_NUMBER_FIELD :: string where
  "SMS_REMINDER_NUMBER_FIELD = ''smsReminderNumber''"

text \<open>A field with the given name and type and no other key.\<close>

definition bare_field :: "string \<Rightarrow> BookingFieldType \<Rightarrow> field" where
  "bare_field n t =
     \<lparr>name = n, type = t, label = None, defaultLabel = None, placeholder = None,
      defaultPlaceholder = None, required = None, editable = None, hidden = None,
      hideWhenJustOneOption = None, getOptionsAt = None, options = None,
      optionsInputs = None, sources = None, variantsConfig = None, views = None,
      fieldTypeConfig = None\<rparr>"

definition FieldTypeConfigMap :: "BookingFieldType \<Rightarrow> FieldTypeConfig option" where
  "FieldTypeConfigMap t =
     (if t = ft_name then
        Some \<lparr>toggleLabel = ''Split \"Full name\" into \"First name\" and \"Last name\"'',
              cfg_variants =
                [(''firstAndLastName'',
                   \<lparr>vc_label = ''First Name, Last Name'',
                    fieldsMap =
                      [(''firstName'', \<lparr>fm_defaultLabel = ''first_name'',
                          fm_defaultPlaceholder = None, canChangeRequirability = False\<rparr>),
                       (''lastName'', \<lparr>fm_defaultLabel = ''last_name'',
                          fm_defaultPlaceholder = None, canChangeRequirability = True\<rparr>)]\<rparr>),
                 (''fullName'',
                   \<lparr>vc_label = ''your_name'',
                    fieldsMap =
                      [(''fullName'', \<lparr>fm_defaultLabel = ''your_name'',
                          fm_defaultPlaceholder = Some ''example_name'',
                          canChangeRequirability = False\<rparr>)]\<rparr>)]\<rparr>
      else None)"

definition getSmsReminderNumberField :: field where
  "getSmsReminderNumberField =
     (bare_field SMS_REMINDER_NUMBER_FIELD ft_phone)
       \<lparr>defaultLabel := Some ''number_sms_notifications'',
        defaultPlaceholder := Some ''enter_phone_number'',
        editable := Some ed_system\<rparr>"

definition getSmsReminderNumberSource :: "int \<Rightarrow> bool \<Rightarrow> source" where
  "getSmsReminderNumberSource workflowId isSmsReminderNumberRequired =
     \<lparr>src_id = string_of_int workflowId, src_type = ''workflow'', src_label = ''Workflow'',
      fieldRequired = Some isSmsReminderNumberRequired,
      editUrl = Some (''/workflows/'' @ string_of_int workflowId)\<rparr>"

definition default_source :: source where
  "default_source =
     \<lparr>src_id = ''default'', src_type = ''default'', src_label = ''Default'',
      fieldRequired = None, editUrl = None\<rparr>"

definition CustomInputTypeToFieldType :: "EventTypeCustomInputType \<Rightarrow> BookingFieldType" where
  "CustomInputTypeToFieldType t =
     (case t of TEXT \<Rightarrow> ft_text | TEXTLONG \<Rightarrow> ft_textarea | NUMBER \<Rightarrow> ft_number
      | BOOL \<Rightarrow> ft_boolean | RADIO \<Rightarrow> ft_radio | PHONE \<Rightarrow> ft_phone)"

definition name_field :: field where
  "name_field =
     (bare_field ''name'' ft_name)
       \<lparr>editable := Some ed_system,
        defaultLabel := Some ''your_name'',
        required := Some True,
        variantsConfig := Some
          \<lparr>defaultVariant = ''fullName'',
           variants =
             [(''firstAndLastName'',
                 [\<lparr>vf_name = ''firstName'', vf_type = ft_text, vf_label = ''First Name'',
                    vf_required = True\<rparr>,
                  \<lparr>vf_name = ''lastName'', vf_type = ft_text, vf_label = ''Last Name'',
                    vf_required = False\<rparr>]),
              (''fullName'',
                 [\<lparr>vf_name = ''fullName'', vf_type = ft_text, vf_label = ''Your Name'',
                    vf_required = True\<rparr>])]\<rparr>,
        sources := Some [default_source]\<rparr>"

definition email_field :: field where
  "email_field =
     (bare_field ''email'' ft_email)
       \<lparr>defaultLabel := Some ''email_address'',
        required := Some True,
        editable := Some ed_system,
        sources := Some [default_source]\<rparr>"

definition location_field :: field where
  "location_field =
     (bare_field ''location'' ft_radioInput)
       \<lparr>defaultLabel := Some ''location'',
        editable := Some ed_system,
        hideWhenJustOneOption := Some True,
        required := Some False,
        getOptionsAt := Some ''locations'',
        optionsInputs := Some
          [(''attendeeInPerson'',
              \<lparr>oi_type = ft_address, oi_required = True, oi_placeholder = ''''\<rparr>),
           (''phone'', \<lparr>oi_type = ft_phone, oi_required = True, oi_placeholder = ''''\<rparr>)],
        sources := Some [default_source]\<rparr>"

definition systemBeforeFields :: "field list" where
  "systemBeforeFields = [name_field, email_field, location_field]"

definition notes_field :: "bool \<Rightarrow> field" where
  "notes_field additionalNotesRequired' =
     (bare_field ''notes'' ft_textarea)
       \<lparr>defaultLabel := Some ''additional_notes'',
        editable := Some ed_system_but_optional,
        required := Some additionalNotesRequired',
        defaultPlaceholder := Some ''share_additional_notes'',
        sources := Some [default_source]\<rparr>"

definition guests_field :: "bool \<Rightarrow> field" where
  "guests_field disableGuests' =
     (bare_field ''guests'' ft_multiemail)
       \<lparr>defaultLabel := Some ''additional_guests'',
        editable := Some ed_system_but_optional,
        required := Some False,
        hidden := Some disableGuests',
        sources := Some [default_source]\<rparr>"

definition rescheduleReason_field :: field where
  "rescheduleReason_field =
     (bare_field ''rescheduleReason'' ft_textarea)
       \<lparr>defaultLabel := Some ''reschedule_reason'',
        editable := Some ed_system_but_optional,
        defaultPlaceholder := Some ''reschedule_placeholder'',
        required := Some False,
        views := Some [\<lparr>view_id = ''reschedule'', view_label = ''Reschedule View''\<rparr>],
        sources := Some [default_source]\<rparr>"

definition systemAfterFields :: "bool \<Rightarrow> bool \<Rightarrow> field list" where
  "systemAfterFields additionalNotesRequired' disableGuests' =
     [notes_field additionalNotesRequired', guests_field disableGuests', rescheduleReason_field]"

section \<open>The reconciliation\<close>

text \<open>\<^verbatim>\<open>Array.prototype.findIndex\<close>, with \<open>None\<close> for the result \<open>-1\<close>.\<close>

fun findIndex :: "('a \<Rightarrow> bool) \<Rightarrow> 'a list \<Rightarrow> nat option" where
  "findIndex P [] = None"
| "findIndex P (x # xs) = (if P x then Some 0 else map_option Suc (findIndex P xs))"

text \<open>\<^verbatim>\<open>xs.splice(i, 0, x)\<close>: insertion in front of position \<open>i\<close>, at the end when \<open>i\<close> is
  beyond the last position.\<close>

definition splice :: "nat \<Rightarrow> 'a \<Rightarrow> 'a list \<Rightarrow> 'a list" where
  "splice i x xs = take i xs @ [x] @ drop i xs"

text \<open>A key of the second object wins; a key that only the first object has is kept.\<close>

definition orElse :: "'a option \<Rightarrow> 'a option \<Rightarrow> 'a option" where
  "orElse x d = (case x of None \<Rightarrow> d | Some v \<Rightarrow> Some v)"

text \<open>The object spread \<^verbatim>\<open>{...field, ...bookingFields[i]}\<close> of a code-defined field and a
  stored one.\<close>

definition spread :: "field \<Rightarrow> field \<Rightarrow> field" where
  "spread code db =
     \<lparr>name = name db, type = type db,
      label = orElse (label db) (label code),
      defaultLabel = orElse (defaultLabel db) (defaultLabel code),
      placeholder = orElse (placeholder db) (placeholder code),
      defaultPlaceholder = orElse (defaultPlaceholder db) (defaultPlaceholder code),
      required = orElse (required db) (required code),
      editable = orElse (editable db) (editable code),
      hidden = orElse (hidden db) (hidden code),
      hideWhenJustOneOption = orElse (hideWhenJustOneOption db) (hideWhenJustOneOption code),
      getOptionsAt = orElse (getOptionsAt db) (getOptionsAt code),
      options = orElse (options db) (options code),
      optionsInputs = orElse (optionsInputs db) (optionsInputs code),
      sources = orElse (sources db) (sources code),
      variantsConfig = orElse (variantsConfig db) (variantsConfig code),
      views = orElse (views db) (views code),
      fieldTypeConfig = orElse (fieldTypeConfig db) (fieldTypeConfig code)\<rparr>"

text \<open>Lines 181 to 194: one provenance record for each SMS-attendee step, in iteration order.\<close>

definition stepSources :: "Workflow \<Rightarrow> source list" where
  "stepSources w =
     concat (map (\<lambda>s. if action s = SMS_ATTENDEE
                       then [getSmsReminderNumberSource (wf_id w) (numberRequired s = Some True)]
                       else []) (steps w))"

definition smsNumberSources :: "WorkflowOnEventType list \<Rightarrow> source list" where
  "smsNumberSources ws = concat (map (\<lambda>w. stepSources (workflow w)) ws)"

text \<open>
  The loops of lines 347 to 359 and 402 to 414 over the code-defined fields: the state is
  the list of fields queued for insertion and the field list, which is updated in place.
\<close>

fun mergeSystemFields :: "field list \<Rightarrow> field list \<Rightarrow> field list \<Rightarrow> field list \<times> field list" where
  "mergeSystemFields [] missing bfs = (missing, bfs)"
| "mergeSystemFields (f # rest) missing bfs =
     (case findIndex (\<lambda>g. name g = name f) bfs of
        None \<Rightarrow> mergeSystemFields rest (missing @ [f]) bfs
      | Some i \<Rightarrow> mergeSystemFields rest missing (bfs[i := spread f (bfs ! i)]))"

text \<open>Lines 346 to 361.\<close>

definition withSystemBeforeFields :: "field list \<Rightarrow> field list" where
  "withSystemBeforeFields bfs =
     (case mergeSystemFields systemBeforeFields [] bfs of
        (missingSystemBeforeFields, bfs') \<Rightarrow> missingSystemBeforeFields @ bfs')"

text \<open>Lines 366 to 373.\<close>

definition withSmsReminderNumber :: "source list \<Rightarrow> field list \<Rightarrow> field list" where
  "withSmsReminderNumber smsSources bfs =
     (if smsSources \<noteq> [] \<and> find (\<lambda>f. name f \<noteq> SMS_REMINDER_NUMBER_FIELD) bfs = None
      then
        (let indexForLocation = findIndex (\<lambda>f. name f = ''location'') bfs
         in splice (case indexForLocation of None \<Rightarrow> 0 | Some i \<Rightarrow> i + 1)
              (getSmsReminderNumberField\<lparr>sources := Some smsSources\<rparr>) bfs)
      else bfs)"

text \<open>Line 384.\<close>

definition migratedName :: "(string \<Rightarrow> string) \<Rightarrow> nat \<Rightarrow> customInput \<Rightarrow> string" where
  "migratedName slug index input =
     slug (if ci_label input \<noteq> [] then ci_label input
           else EventTypeCustomInputType_value (ci_type input) @ ''-'' @ string_of_nat (index + 1))"

text \<open>Lines 388 to 396.\<close>

definition migratedOptions :: "customInput \<Rightarrow> choice list" where
  "migratedOptions input =
     (case ci_options input of
        Some os \<Rightarrow> map (\<lambda>o'. o'\<lparr>opt_value := Some (opt_label o')\<rparr>) os
      | None \<Rightarrow> [])"

text \<open>Lines 378 to 397, the body of the callback for one legacy input.\<close>

definition migrateInput :: "(string \<Rightarrow> string) \<Rightarrow> nat \<Rightarrow> customInput \<Rightarrow> error + field" where
  "migrateInput slug index input =
     (case (if ci_label input \<noteq> [] then Inr (ci_label input)
            else upperCaseToCamelCase (EventTypeCustomInputType_value (ci_type input))) of
        Inl e \<Rightarrow> Inl e
      | Inr label' \<Rightarrow>
          Inr ((bare_field (migratedName slug index input)
                  (CustomInputTypeToFieldType (ci_type input)))
                 \<lparr>label := Some label',
                  editable := Some ed_user,
                  placeholder := ci_placeholder input,
                  required := Some (ci_required input),
                  options := Some (migratedOptions input)\<rparr>))"

text \<open>The \<^verbatim>\<open>forEach\<close> of line 377 from position \<open>index\<close> on; an exception ends it.\<close>

fun migrateCustomInputs :: "(string \<Rightarrow> string) \<Rightarrow> nat \<Rightarrow> customInput list \<Rightarrow> error + field list" where
  "migrateCustomInputs slug index [] = Inr []"
| "migrateCustomInputs slug index (input # rest) =
     (case migrateInput slug index input of
        Inl e \<Rightarrow> Inl e
      | Inr f \<Rightarrow>
          (case migrateCustomInputs slug (Suc index) rest of
             Inl e \<Rightarrow> Inl e
           | Inr fs \<Rightarrow> Inr (f # fs)))"

text \<open>Lines 401 to 416, up to the concatenation.\<close>

definition withSystemAfterFields :: "bool \<Rightarrow> bool \<Rightarrow> field list \<Rightarrow> field list" where
  "withSystemAfterFields additionalNotesRequired' disableGuests' bfs =
     (case mergeSystemFields (systemAfterFields additionalNotesRequired' disableGuests') [] bfs of
        (missingSystemAfterFields, bfs') \<Rightarrow> bfs' @ missingSystemAfterFields)"

text \<open>Lines 416 to 425, the callback of the final \<^verbatim>\<open>map\<close>.\<close>

definition attachFieldTypeConfig :: "field \<Rightarrow> field" where
  "attachFieldTypeConfig f =
     (case FieldTypeConfigMap (type f) of
        None \<Rightarrow> f
      | Some fieldTypeConfig' \<Rightarrow> f\<lparr>fieldTypeConfig := Some fieldTypeConfig'\<rparr>)"

text \<open>
  Modelled from the spec: the schema \<^verbatim>\<open>eventTypeBookingFields\<close> is imported by the source
  and not part of it.  Validation of a typed field list either fails with a validation
  error or returns the list, tagged; which lists pass is the parameter \<open>ok\<close>.
\<close>

definition brand_parse :: "(field list \<Rightarrow> bool) \<Rightarrow> field list \<Rightarrow> error + field list" where
  "brand_parse ok fs = (if ok fs then Inr fs else Inl ValidationError)"

definition ensureBookingInputsHaveSystemFields :: "externals \<Rightarrow> args \<Rightarrow> error + field list" where
  "ensureBookingInputsHaveSystemFields ext a =
     (let handleMigration = (bookingFields a = []);
          smsSources = smsNumberSources (workflows a);
          bfs = withSmsReminderNumber smsSources (withSystemBeforeFields (bookingFields a))
      in case (if handleMigration then migrateCustomInputs (slugify ext) 0 (customInputs a)
               else Inr []) of
           Inl e \<Rightarrow> Inl e
         | Inr migrated \<Rightarrow>
             brand_parse (brand_ok ext)
               (map attachFieldTypeConfig
                  (withSystemAfterFields (additionalNotesRequired a) (disableGuests a)
                     (bfs @ migrated))))"

text \<open>\<^verbatim>\<open>x || d\<close> on an untyped value.\<close>

fun falsy :: "json \<Rightarrow> bool" where
  "falsy JUndefined = True"
| "falsy JNull = True"
| "falsy (JBool b) = (\<not> b)"
| "falsy (JNum n) = (n = 0)"
| "falsy (JStr s) = (s = [])"
| "falsy (JArr xs) = False"
| "falsy (JObj kvs) = False"

definition or_default :: "json \<Rightarrow> json \<Rightarrow> json" where
  "or_default x d = (if falsy x then d else x)"

text \<open>Line 138, \<^verbatim>\<open>parsedMetaData?.additionalNotesRequired || false\<close>: true only for a
  metadata object whose key is present and true.\<close>

definition notesRequired :: "metadata option \<Rightarrow> bool" where
  "notesRequired parsedMetaData =
     (case parsedMetaData of
        None \<Rightarrow> False
      | Some m \<Rightarrow> md_additionalNotesRequired m = Some True)"

text \<open>Lines 131 to 141.\<close>

definition getBookingFieldsWithSystemFields :: "externals \<Rightarrow> raw_args \<Rightarrow> error + field list" where
  "getBookingFieldsWithSystemFields ext r =
     (case EventTypeMetaDataSchema_parse ext (or_default (raw_metadata r) (JObj [])) of
        Inl e \<Rightarrow> Inl e
      | Inr parsedMetaData \<Rightarrow>
     (case eventTypeBookingFields_parse ext (or_default (raw_bookingFields r) (JArr [])) of
        Inl e \<Rightarrow> Inl e
      | Inr parsedBookingFields \<Rightarrow>
     (case customInputSchema_array_parse ext (or_default (raw_customInputs r) (JArr [])) of
        Inl e \<Rightarrow> Inl e
      | Inr parsedCustomInputs \<Rightarrow>
          ensureBookingInputsHaveSystemFields ext
            \<lparr>bookingFields = parsedBookingFields,
             disableGuests = raw_disableGuests r,
             additionalNotesRequired = notesRequired parsedMetaData,
             customInputs = parsedCustomInputs,
             workflows = (case raw_workflows r of None \<Rightarrow> [] | Some ws \<Rightarrow> ws)\<rparr>)))"

section \<open>Auxiliary notions\<close>

text \<open>The first element that satisfies \<open>P\<close> is replaced by its image under \<open>h\<close>.\<close>

fun upd_first :: "('a \<Rightarrow> bool) \<Rightarrow> ('a \<Rightarrow> 'a) \<Rightarrow> 'a list \<Rightarrow> 'a list" where
  "upd_first P h [] = []"
| "upd_first P h (x # xs) = (if P x then h x # xs else x # upd_first P h xs)"

text \<open>One round of a merge loop on the field list, for the code-defined field \<open>d\<close>.\<close>

definition merge1 :: "field \<Rightarrow> field list \<Rightarrow> field list" where
  "merge1 d xs = upd_first (\<lambda>g. name g = name d) (spread d) xs"

text \<open>The first field of a given name: the field that \<^verbatim>\<open>findIndex\<close> by name points to.\<close>

definition first :: "string \<Rightarrow> field list \<Rightarrow> field option" where
  "first n xs = find (\<lambda>g. name g = n) xs"

text \<open>How many fields of a list carry a given name.\<close>

definition count_named :: "string \<Rightarrow> field list \<Rightarrow> nat" where
  "count_named n xs = length (filter (\<lambda>g. name g = n) xs)"

text \<open>The label that a legacy input with an empty label receives.\<close>

definition camelLabel :: "EventTypeCustomInputType \<Rightarrow> string" where
  "camelLabel t = (case upperCaseToCamelCase (EventTypeCustomInputType_value t) of
                     Inr s \<Rightarrow> s | Inl e \<Rightarrow> [])"

text \<open>The field that \<open>migrateInput\<close> returns, and the fields that \<open>migrateCustomInputs\<close>
  returns (lemmas \<open>migrateInput_total\<close> and \<open>migrateCustomInputs_total\<close>).\<close>

definition migratedField :: "(string \<Rightarrow> string) \<Rightarrow> nat \<Rightarrow> customInput \<Rightarrow> field" where
  "migratedField slug index input =
     (bare_field (migratedName slug index input) (CustomInputTypeToFieldType (ci_type input)))
       \<lparr>label := Some (if ci_label input \<noteq> [] then ci_label input else camelLabel (ci_type input)),
        editable := Some ed_user,
        placeholder := ci_placeholder input,
        required := Some (ci_required input),
        options := Some (migratedOptions input)\<rparr>"

fun migratedFields :: "(string \<Rightarrow> string) \<Rightarrow> nat \<Rightarrow> customInput list \<Rightarrow> field list" where
  "migratedFields slug index [] = []"
| "migratedFields slug index (input # rest) =
     migratedField slug index input # migratedFields slug (Suc index) rest"

text \<open>The two components of the state of a merge loop when it ends.\<close>

definition withDefaults :: "field list \<Rightarrow> field list \<Rightarrow> field list" where
  "withDefaults ds xs = fold merge1 ds xs"

definition missingOf :: "field list \<Rightarrow> field list \<Rightarrow> field list" where
  "missingOf ds xs = filter (\<lambda>d. first (name d) xs = None) ds"

text \<open>The list that reaches the final validation (lemma \<open>ensure_eq\<close>).\<close>

definition reconciled :: "(string \<Rightarrow> string) \<Rightarrow> args \<Rightarrow> field list" where
  "reconciled slug a =
     map attachFieldTypeConfig
       (withSystemAfterFields (additionalNotesRequired a) (disableGuests a)
          (withSystemBeforeFields (bookingFields a) @
             (if bookingFields a = [] then migratedFields slug 0 (customInputs a) else [])))"

text \<open>The names that the migration of line 377 gives to the legacy inputs; none when the
  field list is not empty.\<close>

definition migratedNames :: "(string \<Rightarrow> string) \<Rightarrow> args \<Rightarrow> string list" where
  "migratedNames slug a =
     (if bookingFields a = [] then
        map (\<lambda>(j, c). migratedName slug j c) (enumerate 0 (customInputs a))
      else [])"

text \<open>
  An input whose names do not collide: the stored names are pairwise distinct, and so are
  the names of the migrated legacy inputs, none of which is the name of a "before" system
  field.
\<close>

definition valid_input :: "(string \<Rightarrow> string) \<Rightarrow> args \<Rightarrow> bool" where
  "valid_input slug a =
     (distinct (map name (bookingFields a)) \<and> distinct (migratedNames slug a) \<and>
      ''name'' \<notin> set (migratedNames slug a) \<and> ''email'' \<notin> set (migratedNames slug a) \<and>
      ''location'' \<notin> set (migratedNames slug a))"

text \<open>What a call returns, reduced to the names of the fields.\<close>

definition result_names :: "error + field list \<Rightarrow> error + string list" where
  "result_names r = (case r of Inl e \<Rightarrow> Inl e | Inr fs \<Rightarrow> Inr (map name fs))"

text \<open>What a call returns, reduced to the first field of a given name.\<close>

definition result_first :: "string \<Rightarrow> error + field list \<Rightarrow> field option" where
  "result_first n r = (case r of Inl e \<Rightarrow> None | Inr fs \<Rightarrow> first n fs)"

text \<open>What a call returns, reduced to the field at a given position.\<close>

definition result_nth :: "nat \<Rightarrow> error + field list \<Rightarrow> field option" where
  "result_nth i r =
     (case r of Inl e \<Rightarrow> None | Inr fs \<Rightarrow> if i < length fs then Some (fs ! i) else None)"

text \<open>The list that a successful call returns.\<close>

definition the_result :: "error + field list \<Rightarrow> field list" where
  "the_result r = (case r of Inl e \<Rightarrow> [] | Inr fs \<Rightarrow> fs)"

text \<open>An absent argument: \<^verbatim>\<open>undefined\<close> or \<^verbatim>\<open>null\<close>.\<close>

definition nullish :: "json \<Rightarrow> bool" where
  "nullish j \<longleftrightarrow> j = JUndefined \<or> j = JNull"

section \<open>A concrete instance of the collaborators\<close>

text \<open>
  Modelled from the spec: one character of a slug.  A letter is lower-cased, a digit is
  kept, any other character becomes a hyphen.
\<close>

definition slug_char :: "char \<Rightarrow> char" where
  "slug_char c =
     (if (65::nat) \<le> of_char c \<and> of_char c \<le> (90::nat) then char_of (of_char c + (32::nat))
      else if ((97::nat) \<le> of_char c \<and> of_char c \<le> (122::nat))
            \<or> ((48::nat) \<le> of_char c \<and> of_char c \<le> (57::nat)) then c
      else CHR ''-'')"

text \<open>
  Modelled from the spec: the slug generator \<^verbatim>\<open>slugify\<close> is imported by the source and not
  part of it.  The spec calls its result a URL-safe slug of the label, and gives \<open>company\<close>
  and \<open>number-2\<close> as the slugs of \<open>Company\<close> and \<open>NUMBER-2\<close>.
\<close>

definition slugify_model :: "string \<Rightarrow> string" where
  "slugify_model s = map slug_char s"

text \<open>
  Modelled from the spec: the field-list schema is imported by the source and not part of
  it.  The shapes it checks are carried by the types here; what remains is the invariant
  that a name is unique across the list, which the spec has the validation reject.
\<close>

definition unique_names :: "field list \<Rightarrow> bool" where
  "unique_names fs = distinct (map name fs)"

text \<open>
  Modelled from the spec: the metadata schema, reduced to the one key that the source
  reads; an absent key is accepted and \<^verbatim>\<open>null\<close> is accepted.
\<close>

fun metadata_parse_model :: "json \<Rightarrow> error + metadata option" where
  "metadata_parse_model JNull = Inr None"
| "metadata_parse_model (JObj kvs) =
     (case map_of kvs ''additionalNotesRequired'' of
        None \<Rightarrow> Inr (Some \<lparr>md_additionalNotesRequired = None\<rparr>)
      | Some (JBool b) \<Rightarrow> Inr (Some \<lparr>md_additionalNotesRequired = Some b\<rparr>)
      | Some _ \<Rightarrow> Inl ValidationError)"
| "metadata_parse_model _ = Inl ValidationError"

text \<open>
  Modelled from the spec: an array schema applied to an untyped value.  This instance
  decodes the empty array only and rejects what is not an array; it stands for the two
  list schemas where a concrete one is needed.
\<close>

fun empty_array_parse :: "json \<Rightarrow> error + 'a list" where
  "empty_array_parse (JArr []) = Inr []"
| "empty_array_parse _ = Inl ValidationError"

definition model_externals :: externals where
  "model_externals =
     \<lparr>slugify = slugify_model,
      EventTypeMetaDataSchema_parse = metadata_parse_model,
      eventTypeBookingFields_parse = empty_array_parse,
      customInputSchema_array_parse = empty_array_parse,
      brand_ok = unique_names\<rparr>"

text \<open>Inputs used to run the definitions.\<close>

definition workflow7 :: WorkflowOnEventType where
  "workflow7 =
     \<lparr>workflow = \<lparr>wf_id = 7, steps = [\<lparr>action = SMS_ATTENDEE, numberRequired = Some True\<rparr>]\<rparr>\<rparr>"

definition company_field :: field where
  "company_field =
     (bare_field ''company'' ft_text)\<lparr>label := Some ''Company'', editable := Some ed_user\<rparr>"

definition optional_email_field :: field where
  "optional_email_field = (bare_field ''email'' ft_email)\<lparr>required := Some False\<rparr>"

definition company_input :: customInput where
  "company_input =
     \<lparr>ci_label = ''Company'', ci_type = TEXT, ci_required = False, ci_placeholder = Some [],
      ci_options = None\<rparr>"

definition unlabelled_number_input :: customInput where
  "unlabelled_number_input =
     \<lparr>ci_label = [], ci_type = NUMBER, ci_required = False, ci_placeholder = Some [],
      ci_options = None\<rparr>"

definition stored_args :: args where
  "stored_args =
     \<lparr>bookingFields = [company_field, optional_email_field],
      disableGuests = True, additionalNotesRequired = False,
      customInputs = [], workflows = [workflow7]\<rparr>"

definition sms_stored_args :: args where
  "sms_stored_args =
     \<lparr>bookingFields =
        [getSmsReminderNumberField\<lparr>sources := Some [getSmsReminderNumberSource 7 True]\<rparr>],
      disableGuests = False, additionalNotesRequired = False,
      customInputs = [], workflows = []\<rparr>"

definition guests_stored_args :: args where
  "guests_stored_args =
     \<lparr>bookingFields = [guests_field False],
      disableGuests = True, additionalNotesRequired = False,
      customInputs = [], workflows = []\<rparr>"

text \<open>
  Every key of the stored field \<open>db\<close>, \<open>fieldTypeConfig\<close> apart, is a key of \<open>f\<close> with the
  stored value.  (\<open>fieldTypeConfig\<close> is computed, not stored: line 423 sets it afresh.)
\<close>

definition existing_wins :: "field \<Rightarrow> field \<Rightarrow> bool" where
  "existing_wins db f \<longleftrightarrow>
     name f = name db \<and> type f = type db \<and>
     orElse (label db) (label f) = label f \<and>
     orElse (defaultLabel db) (defaultLabel f) = defaultLabel f \<and>
     orElse (placeholder db) (placeholder f) = placeholder f \<and>
     orElse (defaultPlaceholder db) (defaultPlaceholder f) = defaultPlaceholder f \<and>
     orElse (required db) (required f) = required f \<and>
     orElse (editable db) (editable f) = editable f \<and>
     orElse (hidden db) (hidden f) = hidden f \<and>
     orElse (hideWhenJustOneOption db) (hideWhenJustOneOption f) = hideWhenJustOneOption f \<and>
     orElse (getOptionsAt db) (getOptionsAt f) = getOptionsAt f \<and>
     orElse (options db) (options f) = options f \<and>
     orElse (optionsInputs db) (optionsInputs f) = optionsInputs f \<and>
     orElse (sources db) (sources f) = sources f \<and>
     orElse (variantsConfig db) (variantsConfig f) = variantsConfig f \<and>
     orElse (views db) (views f) = views f"

definition legacy_args :: args where
  "legacy_args =
     \<lparr>bookingFields = [], disableGuests = False, additionalNotesRequired = False,
      customInputs = [company_input, unlabelled_number_input], workflows = []\<rparr>"

definition absent_raw_args :: raw_args where
  "absent_raw_args =
     \<lparr>raw_bookingFields = JNull, raw_disableGuests = False, raw_customInputs = JUndefined,
      raw_metadata = JNull, raw_workflows = None\<rparr>"

definition empty_raw_args :: raw_args where
  "empty_raw_args =
     \<lparr>raw_bookingFields = JArr [], raw_disableGuests = False, raw_customInputs = JArr [],
      raw_metadata = JObj [], raw_workflows = Some []\<rparr>"

definition malformed_raw_args :: raw_args where
  "malformed_raw_args =
     \<lparr>raw_bookingFields = JStr ''name'', raw_disableGuests = False, raw_customInputs = JArr [],
      raw_metadata = JObj [], raw_workflows = Some []\<rparr>"

text \<open>Arguments that are present and falsy: the empty string, zero and \<^verbatim>\<open>false\<close>.\<close>

definition falsy_raw_args :: raw_args where
  "falsy_raw_args =
     \<lparr>raw_bookingFields = JStr [], raw_disableGuests = False, raw_customInputs = JBool False,
      raw_metadata = JNum 0, raw_workflows = Some []\<rparr>"

section \<open>The merge loops\<close>

lemma findIndex_None_iff: "findIndex P xs = None \<longleftrightarrow> find P xs = None"
  by (induction xs) auto

lemma findIndex_update:
  "findIndex P xs = Some i \<Longrightarrow> xs[i := h (xs ! i)] = upd_first P h xs"
  by (induction xs arbitrary: i) (auto split: if_splits)

lemma upd_first_absent: "find P xs = None \<Longrightarrow> upd_first P h xs = xs"
  by (induction xs) (auto split: if_splits)

lemma spread_name [simp]: "name (spread d g) = name g"
  by (simp add: spread_def)

lemma spread_type [simp]: "type (spread d g) = type g"
  by (simp add: spread_def)

lemma map_name_upd_first:
  "(\<And>x. name (h x) = name x) \<Longrightarrow> map name (upd_first P h xs) = map name xs"
  by (induction xs) auto

lemma map_name_merge1 [simp]: "map name (merge1 d xs) = map name xs"
  by (simp add: merge1_def map_name_upd_first)

lemma first_None_iff: "first n xs = None \<longleftrightarrow> n \<notin> set (map name xs)"
  by (auto simp: first_def find_None_iff)

lemma first_merge1_None [simp]: "first n (merge1 d xs) = None \<longleftrightarrow> first n xs = None"
  by (simp add: first_None_iff)

lemma mergeSystemFields_fold:
  "mergeSystemFields ds missing xs =
     (missing @ filter (\<lambda>d. first (name d) xs = None) ds, fold merge1 ds xs)"
proof (induction ds arbitrary: missing xs)
  case Nil
  then show ?case by simp
next
  case (Cons d ds)
  show ?case
  proof (cases "findIndex (\<lambda>g. name g = name d) xs")
    case None
    then have absent: "first (name d) xs = None"
      by (simp add: findIndex_None_iff first_def)
    then have "merge1 d xs = xs"
      by (simp add: merge1_def first_def upd_first_absent)
    with None absent show ?thesis
      by (simp add: Cons.IH)
  next
    case (Some i)
    then have present: "first (name d) xs \<noteq> None"
      by (simp add: first_def flip: findIndex_None_iff)
    from Some have "xs[i := spread d (xs ! i)] = merge1 d xs"
      by (simp add: merge1_def findIndex_update)
    with Some present show ?thesis
      by (simp add: Cons.IH)
  qed
qed

lemma upperCaseToCamelCase_value:
  "upperCaseToCamelCase (EventTypeCustomInputType_value t) = Inr (camelLabel t)"
  by (cases t) (simp_all add: camelLabel_def)

lemma migrateInput_total: "migrateInput slug i c = Inr (migratedField slug i c)"
  by (simp add: migrateInput_def migratedField_def upperCaseToCamelCase_value)

lemma migrateCustomInputs_total: "migrateCustomInputs slug i cs = Inr (migratedFields slug i cs)"
  by (induction cs arbitrary: i) (simp_all add: migrateInput_total)

lemma withSystemBeforeFields_eq:
  "withSystemBeforeFields xs = missingOf systemBeforeFields xs @ withDefaults systemBeforeFields xs"
  by (simp add: withSystemBeforeFields_def mergeSystemFields_fold missingOf_def withDefaults_def)

lemma withSystemAfterFields_eq:
  "withSystemAfterFields r g xs =
     withDefaults (systemAfterFields r g) xs @ missingOf (systemAfterFields r g) xs"
  by (simp add: withSystemAfterFields_def mergeSystemFields_fold missingOf_def withDefaults_def)

lemma map_name_withDefaults [simp]: "map name (withDefaults ds xs) = map name xs"
  unfolding withDefaults_def by (induction ds arbitrary: xs) simp_all

lemma first_Nil [simp]: "first n [] = None"
  by (simp add: first_def)

lemma first_Cons [simp]: "first n (x # xs) = (if name x = n then Some x else first n xs)"
  by (simp add: first_def)

lemma first_append:
  "first n (xs @ ys) = (case first n xs of None \<Rightarrow> first n ys | Some g \<Rightarrow> Some g)"
  by (induction xs) auto

lemma first_upd_same:
  "(\<And>x. name (h x) = name x) \<Longrightarrow>
   first n (upd_first (\<lambda>g. name g = n) h xs) = map_option h (first n xs)"
  by (induction xs) auto

lemma first_upd_other:
  "(\<And>x. name (h x) = name x) \<Longrightarrow> n \<noteq> m \<Longrightarrow>
   first n (upd_first (\<lambda>g. name g = m) h xs) = first n xs"
  by (induction xs) auto

lemma first_merge1:
  "first n (merge1 d xs) = (if name d = n then map_option (spread d) (first n xs) else first n xs)"
  by (auto simp: merge1_def first_upd_same first_upd_other)

lemma first_withDefaults:
  "distinct (map name ds) \<Longrightarrow>
   first n (withDefaults ds xs) =
     (case first n ds of None \<Rightarrow> first n xs | Some d \<Rightarrow> map_option (spread d) (first n xs))"
proof (induction ds arbitrary: xs)
  case Nil
  then show ?case by (simp add: withDefaults_def)
next
  case (Cons d ds)
  have step: "withDefaults (d # ds) xs = withDefaults ds (merge1 d xs)"
    by (simp add: withDefaults_def)
  show ?case
  proof (cases "name d = n")
    case True
    with Cons.prems have none: "first n ds = None"
      by (auto simp: first_None_iff)
    from True have "first n (merge1 d xs) = map_option (spread d) (first n xs)"
      by (simp add: first_merge1)
    with True none Cons.prems show ?thesis
      by (simp add: step Cons.IH)
  next
    case False
    then have "first n (merge1 d xs) = first n xs"
      by (simp add: first_merge1)
    with False Cons.prems show ?thesis
      by (simp add: step Cons.IH split: option.splits)
  qed
qed

lemma first_missingOf:
  "first n (missingOf ds xs) =
     (case first n ds of None \<Rightarrow> None | Some d \<Rightarrow> if first n xs = None then Some d else None)"
  by (induction ds) (auto simp: missingOf_def split: option.splits)

text \<open>The first field of a given name after a merge-or-queue pass, at either end.\<close>

lemma first_before:
  "distinct (map name ds) \<Longrightarrow>
   first n (missingOf ds xs @ withDefaults ds xs) =
     (case first n ds of
        None \<Rightarrow> first n xs
      | Some d \<Rightarrow> Some (case first n xs of None \<Rightarrow> d | Some g \<Rightarrow> spread d g))"
  by (cases "first n ds"; cases "first n xs")
     (simp_all add: first_append first_missingOf first_withDefaults)

lemma first_after:
  "distinct (map name ds) \<Longrightarrow>
   first n (withDefaults ds xs @ missingOf ds xs) =
     (case first n ds of
        None \<Rightarrow> first n xs
      | Some d \<Rightarrow> Some (case first n xs of None \<Rightarrow> d | Some g \<Rightarrow> spread d g))"
  by (cases "first n ds"; cases "first n xs")
     (simp_all add: first_append first_missingOf first_withDefaults)

lemma name_defaults [simp]:
  "name name_field = ''name''" "name email_field = ''email''" "name location_field = ''location''"
  "name (notes_field r) = ''notes''" "name (guests_field g) = ''guests''"
  "name rescheduleReason_field = ''rescheduleReason''"
  by (simp_all add: name_field_def email_field_def location_field_def notes_field_def
      guests_field_def rescheduleReason_field_def bare_field_def)

lemma sms_guard_never_holds:
  "withSmsReminderNumber smsSources (withSystemBeforeFields xs) = withSystemBeforeFields xs"
proof -
  have "first ''name'' (withSystemBeforeFields xs) \<noteq> None"
    by (simp add: withSystemBeforeFields_eq first_before systemBeforeFields_def)
  then obtain g where g: "first ''name'' (withSystemBeforeFields xs) = Some g"
    by blast
  then have "g \<in> set (withSystemBeforeFields xs)" "name g = ''name''"
    by (auto simp: first_def find_Some_iff)
  then have "find (\<lambda>f. name f \<noteq> SMS_REMINDER_NUMBER_FIELD) (withSystemBeforeFields xs) \<noteq> None"
    by (auto simp: find_None_iff SMS_REMINDER_NUMBER_FIELD_def)
  then show ?thesis
    unfolding withSmsReminderNumber_def by (simp only: simp_thms if_False)
qed

lemma ensure_eq:
  "ensureBookingInputsHaveSystemFields ext a = brand_parse (brand_ok ext) (reconciled (slugify ext) a)"
  by (simp add: ensureBookingInputsHaveSystemFields_def reconciled_def sms_guard_never_holds
      migrateCustomInputs_total Let_def)

lemma ensure_Inr:
  "ensureBookingInputsHaveSystemFields ext a = Inr out \<longleftrightarrow>
     brand_ok ext (reconciled (slugify ext) a) \<and> out = reconciled (slugify ext) a"
  by (auto simp: ensure_eq brand_parse_def)

lemma attach_name [simp]: "name (attachFieldTypeConfig f) = name f"
  by (simp add: attachFieldTypeConfig_def split: option.splits)

lemma attach_type [simp]: "type (attachFieldTypeConfig f) = type f"
  by (simp add: attachFieldTypeConfig_def split: option.splits)

lemma map_name_missingOf:
  "map name (missingOf ds xs) = filter (\<lambda>n. n \<notin> set (map name xs)) (map name ds)"
  by (induction ds) (simp_all add: missingOf_def first_None_iff)

lemma map_name_migratedFields:
  "map name (migratedFields slug i cs) = map (\<lambda>(j, c). migratedName slug j c) (enumerate i cs)"
  by (induction cs arbitrary: i) (simp_all add: migratedField_def bare_field_def)

lemma names_reconciled:
  "map name (reconciled slug a) =
     (let front = filter (\<lambda>n. n \<notin> set (map name (bookingFields a))) [''name'', ''email'', ''location'']
                    @ map name (bookingFields a) @ migratedNames slug a
      in front @ filter (\<lambda>n. n \<notin> set front) [''notes'', ''guests'', ''rescheduleReason''])"
proof -
  define mig where "mig = (if bookingFields a = [] then migratedFields slug 0 (customInputs a) else [])"
  define xs where "xs = withSystemBeforeFields (bookingFields a) @ mig"
  have before: "map name (withSystemBeforeFields (bookingFields a)) =
      filter (\<lambda>n. n \<notin> set (map name (bookingFields a))) (map name systemBeforeFields)
        @ map name (bookingFields a)"
    by (simp only: withSystemBeforeFields_eq map_append map_name_missingOf map_name_withDefaults)
  have after: "map name (withSystemAfterFields (additionalNotesRequired a) (disableGuests a) xs) =
      map name xs @ filter (\<lambda>n. n \<notin> set (map name xs))
        (map name (systemAfterFields (additionalNotesRequired a) (disableGuests a)))"
    by (simp only: withSystemAfterFields_eq map_append map_name_missingOf map_name_withDefaults)
  have b: "map name systemBeforeFields = [''name'', ''email'', ''location'']"
    by (simp only: systemBeforeFields_def list.map name_defaults)
  have c: "map name (systemAfterFields (additionalNotesRequired a) (disableGuests a)) =
      [''notes'', ''guests'', ''rescheduleReason'']"
    by (simp only: systemAfterFields_def list.map name_defaults)
  have m: "map name mig = migratedNames slug a"
    by (simp only: mig_def migratedNames_def map_name_migratedFields if_distrib [of "map name"]
        list.map)
  have "map name (reconciled slug a) =
      map name (withSystemAfterFields (additionalNotesRequired a) (disableGuests a) xs)"
    by (simp only: reconciled_def xs_def mig_def map_map comp_def attach_name)
  also have "\<dots> = map name xs @ filter (\<lambda>n. n \<notin> set (map name xs)) [''notes'', ''guests'', ''rescheduleReason'']"
    by (simp only: after c)
  also have "map name xs = filter (\<lambda>n. n \<notin> set (map name (bookingFields a))) [''name'', ''email'', ''location'']
        @ map name (bookingFields a) @ map name mig"
    by (simp only: xs_def map_append before b append_assoc)
  finally show ?thesis
    by (simp only: m Let_def)
qed

lemma names_reconciled_mem:
  "n \<in> set (map name (reconciled slug a)) \<longleftrightarrow>
     n \<in> set (map name (bookingFields a)) \<or>
     n \<in> set (migratedNames slug a) \<or>
     n \<in> set [''name'', ''email'', ''location''] \<or>
     n \<in> set [''notes'', ''guests'', ''rescheduleReason'']"
  by (simp only: names_reconciled Let_def set_append set_filter Un_iff mem_Collect_eq) blast

section \<open>Runs on concrete inputs\<close>

lemma migratedNames_stored [simp]: "migratedNames slug stored_args = []"
  by (simp add: migratedNames_def stored_args_def)

lemma names_stored:
  "map name (reconciled slug stored_args) =
     [''name'', ''location'', ''company'', ''email'', ''notes'', ''guests'', ''rescheduleReason'']"
  by (simp add: names_reconciled) 
     (simp add: stored_args_def company_field_def optional_email_field_def bare_field_def)

lemma ensure_stored:
  "ensureBookingInputsHaveSystemFields model_externals stored_args =
     Inr (reconciled slugify_model stored_args)"
  by (simp add: ensure_Inr model_externals_def unique_names_def names_stored)

section \<open>The first field of a name in the reconciled list\<close>

lemma first_map_attach:
  "first n (map attachFieldTypeConfig xs) = map_option attachFieldTypeConfig (first n xs)"
  by (induction xs) auto

lemma distinct_before [simp]: "distinct (map name systemBeforeFields)"
  by (simp add: systemBeforeFields_def)

lemma distinct_after [simp]: "distinct (map name (systemAfterFields r g))"
  by (simp add: systemAfterFields_def)

lemma first_systemBeforeFields:
  "first n systemBeforeFields =
     (if n = ''name'' then Some name_field else if n = ''email'' then Some email_field
      else if n = ''location'' then Some location_field else None)"
  by (auto simp: systemBeforeFields_def)

lemma first_systemAfterFields:
  "first n (systemAfterFields r g) =
     (if n = ''notes'' then Some (notes_field r) else if n = ''guests'' then Some (guests_field g)
      else if n = ''rescheduleReason'' then Some rescheduleReason_field else None)"
  by (auto simp: systemAfterFields_def)

lemma first_reconciled:
  "first n (reconciled slug a) =
     map_option attachFieldTypeConfig
       (let front = withSystemBeforeFields (bookingFields a) @
                      (if bookingFields a = [] then migratedFields slug 0 (customInputs a) else [])
        in case first n (systemAfterFields (additionalNotesRequired a) (disableGuests a)) of
             None \<Rightarrow> first n front
           | Some d \<Rightarrow> Some (case first n front of None \<Rightarrow> d | Some g \<Rightarrow> spread d g))"
  by (simp only: reconciled_def first_map_attach withSystemAfterFields_eq Let_def
      first_after [OF distinct_after])

lemma first_withSystemBeforeFields:
  "first n (withSystemBeforeFields xs) =
     (case first n systemBeforeFields of
        None \<Rightarrow> first n xs
      | Some d \<Rightarrow> Some (case first n xs of None \<Rightarrow> d | Some g \<Rightarrow> spread d g))"
  by (simp only: withSystemBeforeFields_eq first_before [OF distinct_before])

lemma first_reconciled_before:
  assumes "first n systemBeforeFields = Some d"
  shows "first n (reconciled slug a) =
     Some (attachFieldTypeConfig
             (case first n (bookingFields a) of None \<Rightarrow> d | Some g \<Rightarrow> spread d g))"
proof -
  from assms have "first n (systemAfterFields (additionalNotesRequired a) (disableGuests a)) = None"
    by (auto simp: first_systemBeforeFields first_systemAfterFields split: if_splits)
  with assms show ?thesis
    by (simp add: first_reconciled first_append first_withSystemBeforeFields)
qed

lemma first_reconciled_after:
  assumes "first n (systemAfterFields (additionalNotesRequired a) (disableGuests a)) = Some d"
  shows "first n (reconciled slug a) =
     Some (attachFieldTypeConfig
             (case first n (bookingFields a @
                      (if bookingFields a = [] then migratedFields slug 0 (customInputs a) else []))
              of None \<Rightarrow> d | Some g \<Rightarrow> spread d g))"
proof -
  from assms have "first n systemBeforeFields = None"
    by (auto simp: first_systemBeforeFields first_systemAfterFields split: if_splits)
  with assms show ?thesis
    by (simp add: first_reconciled first_append first_withSystemBeforeFields)
qed

lemma hidden_attach [simp]: "hidden (attachFieldTypeConfig f) = hidden f"
  by (simp add: attachFieldTypeConfig_def split: option.splits)

lemma required_attach [simp]: "required (attachFieldTypeConfig f) = required f"
  by (simp add: attachFieldTypeConfig_def split: option.splits)

lemma hidden_spread [simp]: "hidden (spread d g) = orElse (hidden g) (hidden d)"
  by (simp add: spread_def)

lemma required_spread [simp]: "required (spread d g) = orElse (required g) (required d)"
  by (simp add: spread_def)

lemma hidden_guests_field [simp]: "hidden (guests_field g) = Some g"
  by (simp add: guests_field_def bare_field_def)

lemma hidden_migrated: "first n (migratedFields slug i cs) = Some m \<Longrightarrow> hidden m = None"
  by (induction cs arbitrary: i) (auto simp: migratedField_def bare_field_def split: if_splits)

section \<open>What a merge keeps\<close>

lemma orElse_simps [simp]:
  "orElse None d = d" "orElse (Some v) d = Some v" "orElse x None = x"
  by (simp_all add: orElse_def split: option.splits)

lemma orElse_idem [simp]: "orElse x (orElse x d) = orElse x d"
  by (cases x) simp_all

lemma orElse_assoc: "orElse (orElse a b) c = orElse a (orElse b c)"
  by (cases a) simp_all

lemma orElse_same [simp]: "orElse x x = x"
  by (cases x) simp_all

lemma existing_wins_refl: "existing_wins f f"
  by (simp add: existing_wins_def)

lemma existing_wins_spread: "existing_wins g (spread d g)"
  by (simp add: existing_wins_def spread_def)

lemma existing_wins_attach: "existing_wins g (attachFieldTypeConfig g)"
  by (cases "FieldTypeConfigMap (type g)") (simp_all add: existing_wins_def attachFieldTypeConfig_def)

lemma orElse_trans: "orElse a b = b \<Longrightarrow> orElse b c = c \<Longrightarrow> orElse a c = c"
  by (cases a) auto

lemma existing_wins_trans:
  "existing_wins f g \<Longrightarrow> existing_wins g h \<Longrightarrow> existing_wins f h"
  unfolding existing_wins_def by (intro conjI; (elim conjE)?; (erule (1) orElse_trans | simp))

lemma hidden_first_guests:
  "map_option hidden (first ''guests'' (reconciled slug a)) =
     Some (Some (case first ''guests'' (bookingFields a) of
                   None \<Rightarrow> disableGuests a
                 | Some g \<Rightarrow> (case hidden g of None \<Rightarrow> disableGuests a | Some h \<Rightarrow> h)))"
proof -
  have d: "first ''guests'' (systemAfterFields (additionalNotesRequired a) (disableGuests a)) =
      Some (guests_field (disableGuests a))"
    by (simp add: first_systemAfterFields)
  show ?thesis
  proof (cases "first ''guests'' (bookingFields a)")
    case (Some g)
    then show ?thesis
      by (simp add: first_reconciled_after [OF d] first_append orElse_def split: option.splits)
  next
    case None
    show ?thesis
    proof (cases "first ''guests'' (if bookingFields a = [] then
                     migratedFields slug 0 (customInputs a) else [])")
      case inner: None
      with None show ?thesis
        by (simp add: first_reconciled_after [OF d] first_append)
    next
      case (Some m)
      then have "hidden m = None"
        by (auto dest: hidden_migrated split: if_splits)
      with None Some show ?thesis
        by (simp add: first_reconciled_after [OF d] first_append orElse_def)
    qed
  qed
qed

lemma names_guests_stored:
  "map name (reconciled slug guests_stored_args) =
     [''name'', ''email'', ''location'', ''guests'', ''notes'', ''rescheduleReason'']"
  by (simp add: names_reconciled migratedNames_def)
     (simp add: guests_stored_args_def)

lemma ensure_guests_stored:
  "ensureBookingInputsHaveSystemFields model_externals guests_stored_args =
     Inr (reconciled slugify_model guests_stored_args)"
  by (simp add: ensure_Inr model_externals_def unique_names_def names_guests_stored)


lemma first_email_reconciled:
  "first ''email'' (bookingFields a) = Some e \<Longrightarrow>
   first ''email'' (reconciled slug a) = Some (attachFieldTypeConfig (spread email_field e))"
  by (simp add: first_reconciled_before [of "''email''" email_field] first_systemBeforeFields)

section \<open>Names occur once\<close>



lemma distinct_queue_front:
  "distinct xs \<Longrightarrow> distinct ds \<Longrightarrow> distinct (filter (\<lambda>n. n \<notin> set xs) ds @ xs)"
  by (auto simp: distinct_append)

lemma distinct_queue_back:
  "distinct xs \<Longrightarrow> distinct ds \<Longrightarrow> distinct (xs @ filter (\<lambda>n. n \<notin> set xs) ds)"
  by (auto simp: distinct_append)

lemma distinct_names_reconciled:
  assumes "valid_input slug a"
  shows "distinct (map name (reconciled slug a))"
proof -
  let ?B = "[''name'', ''email'', ''location'']"
  let ?I = "map name (bookingFields a)"
  let ?M = "migratedNames slug a"
  have front: "distinct (filter (\<lambda>n. n \<notin> set ?I) ?B @ ?I @ ?M)"
  proof (cases "bookingFields a = []")
    case True
    with assms show ?thesis
      by (simp add: valid_input_def)
  next
    case False
    then have "?M = []"
      by (simp add: migratedNames_def)
    moreover have "distinct (filter (\<lambda>n. n \<notin> set ?I) ?B @ ?I)"
      using assms by (intro distinct_queue_front) (simp_all add: valid_input_def)
    ultimately show ?thesis
      by simp
  qed
  have "distinct [''notes'', ''guests'', ''rescheduleReason'']"
    by simp
  with front show ?thesis
    by (simp only: names_reconciled Let_def distinct_queue_back)
qed

lemma count_named_distinct:
  "distinct (map name xs) \<Longrightarrow> n \<in> set (map name xs) \<Longrightarrow> count_named n xs = 1"
proof (induction xs)
  case Nil
  then show ?case by simp
next
  case (Cons x xs)
  show ?case
  proof (cases "name x = n")
    case True
    with Cons.prems have "n \<notin> name ` set xs"
      by simp
    then have "filter (\<lambda>g. name g = n) xs = []"
      unfolding filter_empty_conv by blast
    with True show ?thesis
      by (simp add: count_named_def)
  next
    case False
    with Cons show ?thesis
      by (simp add: count_named_def)
  qed
qed

lemma system_names_reconciled:
  "n \<in> set [''name'', ''email'', ''location'', ''notes'', ''guests'', ''rescheduleReason''] \<Longrightarrow>
   n \<in> set (map name (reconciled slug a))"
  by (simp only: names_reconciled_mem) auto

lemma count_named_reconciled:
  assumes "valid_input slug a"
    and "n \<in> set [''name'', ''email'', ''location'', ''notes'', ''guests'', ''rescheduleReason'']"
  shows "count_named n (reconciled slug a) = 1"
  using assms by (intro count_named_distinct distinct_names_reconciled system_names_reconciled)

lemma names_sms_stored:
  "map name (reconciled slug sms_stored_args) =
     [''name'', ''email'', ''location'', ''smsReminderNumber'', ''notes'', ''guests'', ''rescheduleReason'']"
  by (simp add: names_reconciled migratedNames_def)
     (simp add: sms_stored_args_def getSmsReminderNumberField_def bare_field_def
        SMS_REMINDER_NUMBER_FIELD_def)

lemma ensure_sms_stored:
  "ensureBookingInputsHaveSystemFields model_externals sms_stored_args =
     Inr (reconciled slugify_model sms_stored_args)"
  by (simp add: ensure_Inr model_externals_def unique_names_def names_sms_stored)

lemma valid_sms_stored: "valid_input slug sms_stored_args"
  by (simp add: valid_input_def migratedNames_def) (simp add: sms_stored_args_def)

section \<open>The migrated fields\<close>

lemma length_upd_first [simp]: "length (upd_first P h xs) = length xs"
  by (induction xs) simp_all

lemma nth_upd_first:
  "i < length xs \<Longrightarrow> upd_first P h xs ! i = xs ! i \<or> upd_first P h xs ! i = h (xs ! i)"
proof (induction xs arbitrary: i)
  case Nil
  then show ?case by simp
next
  case (Cons x xs)
  then show ?case
    by (cases i) auto
qed

lemma length_merge1 [simp]: "length (merge1 d xs) = length xs"
  by (simp add: merge1_def)

lemma existing_wins_merge1: "i < length xs \<Longrightarrow> existing_wins (xs ! i) (merge1 d xs ! i)"
  using nth_upd_first [of i xs "\<lambda>g. name g = name d" "spread d"]
  by (auto simp: merge1_def existing_wins_refl existing_wins_spread)

lemma length_withDefaults [simp]: "length (withDefaults ds xs) = length xs"
  unfolding withDefaults_def by (induction ds arbitrary: xs) simp_all

lemma existing_wins_withDefaults:
  "i < length xs \<Longrightarrow> existing_wins (xs ! i) (withDefaults ds xs ! i)"
proof (induction ds arbitrary: xs)
  case Nil
  then show ?case by (simp add: withDefaults_def existing_wins_refl)
next
  case (Cons d ds)
  have step: "withDefaults (d # ds) xs = withDefaults ds (merge1 d xs)"
    by (simp add: withDefaults_def)
  from Cons.prems have "existing_wins (merge1 d xs ! i) (withDefaults ds (merge1 d xs) ! i)"
    by (intro Cons.IH) simp
  with existing_wins_merge1 [OF Cons.prems, of d] show ?case
    unfolding step by (rule existing_wins_trans)
qed

lemma withSystemBeforeFields_Nil: "withSystemBeforeFields [] = systemBeforeFields"
  by (simp add: withSystemBeforeFields_def systemBeforeFields_def)

lemma length_migratedFields [simp]: "length (migratedFields slug k cs) = length cs"
  by (induction cs arbitrary: k) simp_all

lemma nth_migratedFields:
  "i < length cs \<Longrightarrow> migratedFields slug k cs ! i = migratedField slug (k + i) (cs ! i)"
proof (induction cs arbitrary: k i)
  case Nil
  then show ?case by simp
next
  case (Cons c cs)
  then show ?case
    by (cases i) simp_all
qed

text \<open>On an empty field list, the legacy input at position \<open>i\<close> ends at position \<open>3 + i\<close>.\<close>

lemma migrated_position:
  assumes "bookingFields a = []" and "i < length (customInputs a)"
  shows "3 + i < length (reconciled slug a)"
    and "existing_wins (migratedField slug i (customInputs a ! i)) (reconciled slug a ! (3 + i))"
proof -
  define front where "front = systemBeforeFields @ migratedFields slug 0 (customInputs a)"
  define A where "A = systemAfterFields (additionalNotesRequired a) (disableGuests a)"
  have rec: "reconciled slug a = map attachFieldTypeConfig (withDefaults A front @ missingOf A front)"
    using assms(1)
    by (simp add: reconciled_def withSystemBeforeFields_Nil withSystemAfterFields_eq front_def A_def)
  have len: "3 + i < length front"
    using assms(2) by (simp add: front_def systemBeforeFields_def)
  then show "3 + i < length (reconciled slug a)"
    by (simp add: rec)
  have at: "front ! (3 + i) = migratedField slug i (customInputs a ! i)"
    using assms(2) by (simp add: front_def systemBeforeFields_def nth_append nth_migratedFields)
  from len have "reconciled slug a ! (3 + i) = attachFieldTypeConfig (withDefaults A front ! (3 + i))"
    by (simp add: rec nth_append)
  moreover have "existing_wins (front ! (3 + i)) (withDefaults A front ! (3 + i))"
    using len by (rule existing_wins_withDefaults)
  ultimately show "existing_wins (migratedField slug i (customInputs a ! i)) (reconciled slug a ! (3 + i))"
    unfolding at by (simp add: existing_wins_trans [OF _ existing_wins_attach])
qed

lemma migratedOptions_values:
  "list_all (\<lambda>o'. opt_value o' = Some (opt_label o')) (migratedOptions c)"
  by (auto simp: migratedOptions_def list_all_iff split: option.splits)

lemma migratedOptions_labels:
  "map opt_label (migratedOptions c) = (case ci_options c of None \<Rightarrow> [] | Some os \<Rightarrow> map opt_label os)"
  by (simp add: migratedOptions_def split: option.splits)

lemma migrated_properties:
  assumes "existing_wins (migratedField slug i c) f"
  shows "name f = migratedName slug i c" "type f = CustomInputTypeToFieldType (ci_type c)"
    "editable f = Some ed_user" "options f = Some (migratedOptions c)"
    "required f = Some (ci_required c)"
  using assms by (simp_all add: existing_wins_def migratedField_def bare_field_def)


lemma slugify_model_examples:
  "slugify_model ''Company'' = ''company''" "slugify_model ''NUMBER-2'' = ''number-2''"
  by code_simp+

lemma names_legacy:
  "map name (reconciled slugify_model legacy_args) =
     [''name'', ''email'', ''location'', ''company'', ''number-2'', ''notes'', ''guests'',
      ''rescheduleReason'']"
proof -
  have "migratedNames slugify_model legacy_args = [''company'', ''number-2'']"
    by code_simp
  moreover have "bookingFields legacy_args = []"
    by (simp add: legacy_args_def)
  ultimately show ?thesis
    by (simp add: names_reconciled)
qed

lemma ensure_legacy:
  "ensureBookingInputsHaveSystemFields model_externals legacy_args =
     Inr (reconciled slugify_model legacy_args)"
  by (simp add: ensure_Inr model_externals_def unique_names_def names_legacy)

section \<open>A reconciled list is a fixed point\<close>

lemma spread_assoc: "spread d' (spread d g) = spread (spread d' d) g"
  by (simp add: spread_def orElse_assoc)

lemma spread_self [simp]: "spread d d = d"
  by (simp add: spread_def)

lemma spread_attach: "spread d (attachFieldTypeConfig f) = attachFieldTypeConfig (spread d f)"
  by (cases "FieldTypeConfigMap (type f)") (simp_all add: attachFieldTypeConfig_def spread_def)

lemma attach_idem [simp]: "attachFieldTypeConfig (attachFieldTypeConfig f) = attachFieldTypeConfig f"
  by (cases "FieldTypeConfigMap (type f)") (simp_all add: attachFieldTypeConfig_def)

lemma spread_notes [simp]: "spread (notes_field r') (notes_field r) = notes_field r"
  by (simp add: spread_def notes_field_def bare_field_def)

lemma spread_guests [simp]: "spread (guests_field g') (guests_field g) = guests_field g"
  by (simp add: spread_def guests_field_def bare_field_def)

text \<open>A field that already absorbed a code-defined field of the same keys is a fixed point.\<close>

lemma spread_absorbed:
  assumes "spread d' d = d"
  shows "spread d' (attachFieldTypeConfig (case x of None \<Rightarrow> d | Some g \<Rightarrow> spread d g)) =
         attachFieldTypeConfig (case x of None \<Rightarrow> d | Some g \<Rightarrow> spread d g)"
  using assms by (cases x) (simp_all add: spread_attach spread_assoc)

lemma upd_first_fixed: "find P xs = Some g \<Longrightarrow> h g = g \<Longrightarrow> upd_first P h xs = xs"
  by (induction xs) (auto split: if_splits)

lemma merge1_fixed: "first (name d) xs = Some g \<Longrightarrow> spread d g = g \<Longrightarrow> merge1 d xs = xs"
  unfolding merge1_def first_def by (rule upd_first_fixed)

lemma withDefaults_fixed:
  assumes "\<And>d. d \<in> set ds \<Longrightarrow> \<exists>g. first (name d) xs = Some g \<and> spread d g = g"
  shows "withDefaults ds xs = xs"
  using assms
proof (induction ds)
  case Nil
  show ?case by (simp add: withDefaults_def)
next
  case (Cons d ds)
  have "d \<in> set (d # ds)"
    by simp
  from Cons.prems [OF this] obtain g where "first (name d) xs = Some g" "spread d g = g"
    by blast
  then have m: "merge1 d xs = xs"
    by (rule merge1_fixed)
  have step: "withDefaults (d # ds) xs = withDefaults ds (merge1 d xs)"
    by (simp add: withDefaults_def)
  have "withDefaults ds xs = xs"
  proof (rule Cons.IH)
    fix e
    assume "e \<in> set ds"
    then have "e \<in> set (d # ds)"
      by simp
    then show "\<exists>g. first (name e) xs = Some g \<and> spread e g = g"
      by (rule Cons.prems)
  qed
  then show ?case
    by (simp only: step m)
qed

lemma missingOf_fixed:
  assumes "\<And>d. d \<in> set ds \<Longrightarrow> \<exists>g. first (name d) xs = Some g \<and> spread d g = g"
  shows "missingOf ds xs = []"
proof -
  have "first (name d) xs \<noteq> None" if "d \<in> set ds" for d
    using assms [OF that] by auto
  then show ?thesis
    unfolding missingOf_def filter_empty_conv by blast
qed

lemma before_counterpart:
  assumes "d \<in> set systemBeforeFields"
  shows "first (name d) systemBeforeFields = Some d"
proof -
  from assms consider "d = name_field" | "d = email_field" | "d = location_field"
    unfolding systemBeforeFields_def by auto
  then show ?thesis
  proof cases
    case 1
    then show ?thesis by (simp add: first_systemBeforeFields)
  next
    case 2
    then show ?thesis by (simp add: first_systemBeforeFields)
  next
    case 3
    then show ?thesis by (simp add: first_systemBeforeFields)
  qed
qed

lemma settled_before:
  assumes "d \<in> set systemBeforeFields"
  shows "\<exists>g. first (name d) (reconciled slug a) = Some g \<and> spread d g = g"
proof -
  let ?g = "attachFieldTypeConfig
              (case first (name d) (bookingFields a) of None \<Rightarrow> d | Some g \<Rightarrow> spread d g)"
  have "first (name d) (reconciled slug a) = Some ?g"
    by (rule first_reconciled_before [OF before_counterpart [OF assms]])
  moreover have "spread d ?g = ?g"
    by (rule spread_absorbed) (rule spread_self)
  ultimately show ?thesis
    by blast
qed

lemma after_counterpart:
  assumes "d' \<in> set (systemAfterFields r' g')"
  shows "\<exists>d. first (name d') (systemAfterFields r g) = Some d \<and> spread d' d = d"
proof -
  from assms consider "d' = notes_field r'" | "d' = guests_field g'" | "d' = rescheduleReason_field"
    by (auto simp: systemAfterFields_def)
  then show ?thesis
  proof cases
    case 1
    then show ?thesis by (simp add: first_systemAfterFields)
  next
    case 2
    then show ?thesis by (simp add: first_systemAfterFields)
  next
    case 3
    then show ?thesis by (simp add: first_systemAfterFields)
  qed
qed

lemma settled_after:
  assumes "d' \<in> set (systemAfterFields r' g')"
  shows "\<exists>g. first (name d') (reconciled slug a) = Some g \<and> spread d' g = g"
proof -
  from after_counterpart [OF assms] obtain d where
    f: "first (name d') (systemAfterFields (additionalNotesRequired a) (disableGuests a)) = Some d"
    and s: "spread d' d = d"
    by blast
  let ?g = "attachFieldTypeConfig
              (case first (name d') (bookingFields a @
                      (if bookingFields a = [] then migratedFields slug 0 (customInputs a) else []))
               of None \<Rightarrow> d | Some g \<Rightarrow> spread d g)"
  have "first (name d') (reconciled slug a) = Some ?g"
    by (rule first_reconciled_after [OF f])
  moreover have "spread d' ?g = ?g"
    by (rule spread_absorbed) (rule s)
  ultimately show ?thesis
    by blast
qed

lemma reconciled_nonempty: "reconciled slug a \<noteq> []"
  using settled_before [of name_field slug a] by (auto simp: systemBeforeFields_def)

lemma map_attach_reconciled:
  "map attachFieldTypeConfig (reconciled slug a) = reconciled slug a"
  by (simp add: reconciled_def)

lemma reconciled_idem:
  "bookingFields a' = reconciled slug a \<Longrightarrow> reconciled slug' a' = reconciled slug a"
proof -
  assume b: "bookingFields a' = reconciled slug a"
  let ?out = "reconciled slug a"
  have before: "withSystemBeforeFields ?out = ?out"
    by (simp add: withSystemBeforeFields_eq withDefaults_fixed missingOf_fixed settled_before)
  have after: "withSystemAfterFields r' g' ?out = ?out" for r' g'
    by (simp add: withSystemAfterFields_eq withDefaults_fixed [OF settled_after]
        missingOf_fixed [OF settled_after])
  show ?thesis
    unfolding reconciled_def [of slug' a'] b
    by (simp add: reconciled_nonempty before after map_attach_reconciled)
qed

section \<open>Validation of the untyped arguments\<close>

lemma or_default_nullish: "nullish j \<Longrightarrow> or_default j d = d"
  by (auto simp: nullish_def or_default_def)

lemma or_default_array [simp]: "or_default (JArr xs) d = JArr xs"
  by (simp add: or_default_def)

lemma or_default_object [simp]: "or_default (JObj kvs) d = JObj kvs"
  by (simp add: or_default_def)

lemma names_empty:
  "map name (reconciled slug
      \<lparr>bookingFields = [], disableGuests = g, additionalNotesRequired = r, customInputs = [],
       workflows = ws\<rparr>) =
     [''name'', ''email'', ''location'', ''notes'', ''guests'', ''rescheduleReason'']"
  by (simp add: names_reconciled migratedNames_def enumerate_eq_zip)

lemma reconciled_empty:
  "reconciled slug
      \<lparr>bookingFields = [], disableGuests = g, additionalNotesRequired = r, customInputs = [],
       workflows = ws\<rparr> =
     map attachFieldTypeConfig (systemBeforeFields @ systemAfterFields r g)"
  by (simp add: reconciled_def withSystemBeforeFields_Nil withSystemAfterFields_def
      systemAfterFields_def systemBeforeFields_def)


lemma get_empty:
  "result_names (getBookingFieldsWithSystemFields model_externals empty_raw_args) =
     Inr [''name'', ''email'', ''location'', ''notes'', ''guests'', ''rescheduleReason'']"
  by (simp add: getBookingFieldsWithSystemFields_def empty_raw_args_def model_externals_def
      ensure_eq brand_parse_def unique_names_def names_empty result_names_def)

lemma get_falsy:
  "result_names (getBookingFieldsWithSystemFields model_externals falsy_raw_args) =
     Inr [''name'', ''email'', ''location'', ''notes'', ''guests'', ''rescheduleReason'']"
  by (simp add: getBookingFieldsWithSystemFields_def falsy_raw_args_def model_externals_def
      or_default_def ensure_eq brand_parse_def unique_names_def names_empty result_names_def)

lemma get_malformed:
  "getBookingFieldsWithSystemFields model_externals malformed_raw_args = Inl ValidationError"
  by (simp add: getBookingFieldsWithSystemFields_def malformed_raw_args_def model_externals_def
      or_default_def)


lemma get_cong:
  assumes "or_default (raw_metadata r) (JObj []) = or_default (raw_metadata r') (JObj [])"
    and "or_default (raw_bookingFields r) (JArr []) = or_default (raw_bookingFields r') (JArr [])"
    and "or_default (raw_customInputs r) (JArr []) = or_default (raw_customInputs r') (JArr [])"
    and "raw_disableGuests r = raw_disableGuests r'"
    and "(case raw_workflows r of None \<Rightarrow> [] | Some ws \<Rightarrow> ws) =
         (case raw_workflows r' of None \<Rightarrow> [] | Some ws \<Rightarrow> ws)"
  shows "getBookingFieldsWithSystemFields ext r = getBookingFieldsWithSystemFields ext r'"
  unfolding getBookingFieldsWithSystemFields_def assms ..

section \<open>The claims\<close>

text \<open>
  C6: the legacy custom-input migration runs only when the incoming field list is empty.
  For a non-empty field list the result of \<open>ensureBookingInputsHaveSystemFields\<close> is the
  same for any two values of the \<open>customInputs\<close> argument.
\<close>

theorem customInputs_ignored_when_fields_stored:
  "bookingFields a \<noteq> [] \<Longrightarrow>
   ensureBookingInputsHaveSystemFields ext (a\<lparr>customInputs := c1\<rparr>) =
   ensureBookingInputsHaveSystemFields ext (a\<lparr>customInputs := c2\<rparr>)"
  by (simp add: ensureBookingInputsHaveSystemFields_def)

theorem customInputs_ignored_when_fields_stored_witness:
  "bookingFields stored_args \<noteq> [] \<and>
   ensureBookingInputsHaveSystemFields model_externals (stored_args\<lparr>customInputs := []\<rparr>) =
   ensureBookingInputsHaveSystemFields model_externals
     (stored_args\<lparr>customInputs := [company_input, unlabelled_number_input]\<rparr>)"
proof -
  have stored: "bookingFields stored_args \<noteq> []"
    by (simp add: stored_args_def)
  from customInputs_ignored_when_fields_stored [OF stored] stored show ?thesis
    by blast
qed

text \<open>
  C8: field ordering.  The names of the output are, in this order: the "before" system
  names \<open>name\<close>, \<open>email\<close>, \<open>location\<close> that no input field carries, in that relative
  order; the names of the input fields in their original order; the names of the migrated
  legacy inputs (only for an empty input list); and the "after" system names \<open>notes\<close>,
  \<open>guests\<close>, \<open>rescheduleReason\<close> that no field present before the append step carries.
\<close>

theorem field_order:
  assumes "ensureBookingInputsHaveSystemFields ext a = Inr out"
  shows "map name out =
     (let front = filter (\<lambda>n. n \<notin> set (map name (bookingFields a))) [''name'', ''email'', ''location'']
                    @ map name (bookingFields a) @ migratedNames (slugify ext) a
      in front @ filter (\<lambda>n. n \<notin> set front) [''notes'', ''guests'', ''rescheduleReason''])"
  using assms by (simp only: ensure_Inr names_reconciled)

theorem field_order_witness:
  "result_names (ensureBookingInputsHaveSystemFields model_externals stored_args) =
     Inr [''name'', ''location'', ''company'', ''email'', ''notes'', ''guests'', ''rescheduleReason'']"
proof -
  note field_order [OF ensure_stored]
  then have "map name (reconciled slugify_model stored_args) =
     [''name'', ''location'', ''company'', ''email'', ''notes'', ''guests'', ''rescheduleReason'']"
    by (simp add: stored_args_def company_field_def optional_email_field_def bare_field_def
        migratedNames_def)
  then show ?thesis
    by (simp add: ensure_stored result_names_def)
qed

text \<open>
  C1: the claim expects a field named \<open>smsReminderNumber\<close> right after \<open>location\<close> when a
  workflow has an SMS-attendee step and the non-empty field list lacks that field.  The
  guard of line 366 asks for a list without any field of another name, and the list
  always holds the field \<open>name\<close> by then, so nothing is inserted: for a non-empty field
  list without a field of that name, the output has no such field, whatever the workflows
  are.
\<close>

theorem sms_field_not_injected:
  assumes "bookingFields a \<noteq> []"
    and "SMS_REMINDER_NUMBER_FIELD \<notin> set (map name (bookingFields a))"
    and "ensureBookingInputsHaveSystemFields ext a = Inr out"
  shows "SMS_REMINDER_NUMBER_FIELD \<notin> set (map name out)"
proof -
  from assms(3) have "map name out = map name (reconciled (slugify ext) a)"
    by (simp add: ensure_Inr)
  moreover from assms(1) have "migratedNames (slugify ext) a = []"
    by (simp add: migratedNames_def)
  moreover have "SMS_REMINDER_NUMBER_FIELD \<notin> set [''name'', ''email'', ''location'']"
    "SMS_REMINDER_NUMBER_FIELD \<notin> set [''notes'', ''guests'', ''rescheduleReason'']"
    by (simp_all add: SMS_REMINDER_NUMBER_FIELD_def)
  ultimately show ?thesis
    using assms(2) by (simp only: names_reconciled_mem simp_thms list.set empty_iff)
qed

theorem sms_field_not_injected_witness:
  "bookingFields stored_args \<noteq> [] \<and>
   SMS_REMINDER_NUMBER_FIELD \<notin> set (map name (bookingFields stored_args)) \<and>
   smsNumberSources (workflows stored_args) = [getSmsReminderNumberSource 7 True] \<and>
   result_names (ensureBookingInputsHaveSystemFields model_externals stored_args) =
     Inr [''name'', ''location'', ''company'', ''email'', ''notes'', ''guests'', ''rescheduleReason''] \<and>
   result_first SMS_REMINDER_NUMBER_FIELD
     (ensureBookingInputsHaveSystemFields model_externals stored_args) = None"
proof -
  have 1: "bookingFields stored_args \<noteq> []"
    by (simp add: stored_args_def)
  have 2: "SMS_REMINDER_NUMBER_FIELD \<notin> set (map name (bookingFields stored_args))"
    by (simp add: stored_args_def company_field_def optional_email_field_def bare_field_def
        SMS_REMINDER_NUMBER_FIELD_def)
  have 3: "smsNumberSources (workflows stored_args) = [getSmsReminderNumberSource 7 True]"
    by (simp add: stored_args_def workflow7_def smsNumberSources_def stepSources_def)
  from sms_field_not_injected [OF 1 2 ensure_stored]
  have 4: "first SMS_REMINDER_NUMBER_FIELD (reconciled slugify_model stored_args) = None"
    by (simp only: first_None_iff simp_thms)
  from 1 2 3 4 show ?thesis
    by (simp only: ensure_stored result_names_def result_first_def sum.case names_stored simp_thms)
qed

text \<open>
  C7 (as amended): the first field named \<open>guests\<close> of the output has \<open>hidden\<close> equal to
  \<open>disableGuests\<close>, unless the input field list has a field named \<open>guests\<close> that carries its
  own \<open>hidden\<close> value; the stored value is kept then.  The counterexample is a stored
  \<open>guests\<close> field with \<open>hidden\<close> false (as an earlier call with guests enabled
  returns it) in a call with \<open>disableGuests\<close> true.
\<close>

theorem guests_hidden:
  assumes "ensureBookingInputsHaveSystemFields ext a = Inr out"
  shows "map_option hidden (first ''guests'' out) =
     Some (Some (case first ''guests'' (bookingFields a) of
                   None \<Rightarrow> disableGuests a
                 | Some g \<Rightarrow> (case hidden g of None \<Rightarrow> disableGuests a | Some h \<Rightarrow> h)))"
  using assms by (simp only: ensure_Inr hidden_first_guests)

theorem guests_hidden_witness:
  "disableGuests stored_args \<and> first ''guests'' (bookingFields stored_args) = None \<and>
   map_option hidden (result_first ''guests''
     (ensureBookingInputsHaveSystemFields model_externals stored_args)) = Some (Some True)"
proof -
  have 1: "disableGuests stored_args" "first ''guests'' (bookingFields stored_args) = None"
    by (simp_all add: stored_args_def company_field_def optional_email_field_def bare_field_def)
  from guests_hidden [OF ensure_stored] 1
  have "map_option hidden (first ''guests'' (reconciled slugify_model stored_args)) = Some (Some True)"
    by simp
  with 1 show ?thesis
    by (simp add: ensure_stored result_first_def)
qed

theorem guests_hidden_counterexample:
  "disableGuests guests_stored_args \<and>
   map_option hidden (result_first ''guests''
     (ensureBookingInputsHaveSystemFields model_externals guests_stored_args)) = Some (Some False)"
proof -
  have "disableGuests guests_stored_args"
    "map_option hidden (first ''guests'' (bookingFields guests_stored_args)) = Some (Some False)"
    by (simp_all add: guests_stored_args_def)
  then show ?thesis
    by (auto simp: ensure_guests_stored result_first_def hidden_first_guests)
qed

text \<open>
  C4: when the first field named \<open>email\<close> of the input has \<open>required\<close> false, the first
  field named \<open>email\<close> of the output has \<open>required\<close> false, and every key of the stored
  field is on the output field with its stored value: the code default never replaces
  a stored value.
\<close>

theorem email_required_preserved:
  assumes "first ''email'' (bookingFields a) = Some e"
    and "required e = Some False"
    and "ensureBookingInputsHaveSystemFields ext a = Inr out"
  shows "\<exists>e'. first ''email'' out = Some e' \<and> required e' = Some False \<and> existing_wins e e'"
proof -
  from assms(3) have out: "out = reconciled (slugify ext) a"
    by (simp add: ensure_Inr)
  let ?e' = "attachFieldTypeConfig (spread email_field e)"
  have "first ''email'' out = Some ?e'"
    using assms(1) by (simp add: out first_email_reconciled)
  moreover have "required ?e' = Some False"
    using assms(2) by simp
  moreover have "existing_wins e ?e'"
    by (rule existing_wins_trans [OF existing_wins_spread existing_wins_attach])
  ultimately show ?thesis
    by blast
qed

theorem email_required_preserved_witness:
  "first ''email'' (bookingFields stored_args) = Some optional_email_field \<and>
   required optional_email_field = Some False \<and>
   required email_field = Some True \<and>
   map_option required (result_first ''email''
     (ensureBookingInputsHaveSystemFields model_externals stored_args)) = Some (Some False)"
proof -
  have 1: "first ''email'' (bookingFields stored_args) = Some optional_email_field"
    by (simp add: stored_args_def company_field_def optional_email_field_def bare_field_def)
  have 2: "required optional_email_field = Some False"
    by (simp add: optional_email_field_def bare_field_def)
  have 3: "required email_field = Some True"
    by (simp add: email_field_def bare_field_def)
  from email_required_preserved [OF 1 2 ensure_stored]
  have "map_option required (first ''email'' (reconciled slugify_model stored_args)) = Some (Some False)"
    by auto
  with 1 2 3 show ?thesis
    by (simp add: ensure_stored result_first_def)
qed

text \<open>
  C2 (as amended): for an input whose names do not collide (\<open>valid_input\<close>), the returned
  list has exactly one field named each of \<open>name\<close>, \<open>email\<close>, \<open>location\<close>, \<open>notes\<close>,
  \<open>guests\<close> and \<open>rescheduleReason\<close>, and it has a field named \<open>smsReminderNumber\<close> whenever
  the input field list has one.  The counterexample is an input with a stored
  \<open>smsReminderNumber\<close> field and no workflow: the field stays in the output, so its
  presence does not depend on a workflow with an SMS step alone.
\<close>

theorem system_fields_exactly_once:
  assumes "valid_input (slugify ext) a"
    and "ensureBookingInputsHaveSystemFields ext a = Inr out"
  shows "count_named ''name'' out = 1 \<and> count_named ''email'' out = 1 \<and>
         count_named ''location'' out = 1 \<and> count_named ''notes'' out = 1 \<and>
         count_named ''guests'' out = 1 \<and> count_named ''rescheduleReason'' out = 1 \<and>
         (SMS_REMINDER_NUMBER_FIELD \<in> set (map name (bookingFields a)) \<longrightarrow>
          SMS_REMINDER_NUMBER_FIELD \<in> set (map name out))"
proof -
  from assms(2) have out: "out = reconciled (slugify ext) a"
    by (simp add: ensure_Inr)
  have "SMS_REMINDER_NUMBER_FIELD \<in> set (map name (bookingFields a)) \<longrightarrow>
        SMS_REMINDER_NUMBER_FIELD \<in> set (map name out)"
    by (simp only: out names_reconciled_mem) blast
  with assms(1) show ?thesis
    by (simp add: out count_named_reconciled)
qed

theorem system_fields_exactly_once_witness:
  "valid_input slugify_model sms_stored_args \<and>
   result_names (ensureBookingInputsHaveSystemFields model_externals sms_stored_args) =
     Inr [''name'', ''email'', ''location'', ''smsReminderNumber'', ''notes'', ''guests'',
          ''rescheduleReason''] \<and>
   map_sum id (count_named ''name'')
     (ensureBookingInputsHaveSystemFields model_externals sms_stored_args) = Inr 1 \<and>
   map_sum id (count_named ''notes'')
     (ensureBookingInputsHaveSystemFields model_externals sms_stored_args) = Inr 1"
proof -
  have "slugify model_externals = slugify_model"
    by (simp add: model_externals_def)
  with system_fields_exactly_once [OF _ ensure_sms_stored] valid_sms_stored
  have "count_named ''name'' (reconciled slugify_model sms_stored_args) = 1 \<and>
        count_named ''notes'' (reconciled slugify_model sms_stored_args) = 1"
    by simp
  then show ?thesis
    by (simp add: valid_sms_stored ensure_sms_stored result_names_def names_sms_stored)
qed

theorem sms_field_iff_workflow_counterexample:
  "valid_input slugify_model sms_stored_args \<and>
   workflows sms_stored_args = [] \<and>
   result_names (ensureBookingInputsHaveSystemFields model_externals sms_stored_args) =
     Inr [''name'', ''email'', ''location'', ''smsReminderNumber'', ''notes'', ''guests'',
          ''rescheduleReason'']"
  by (simp add: valid_sms_stored ensure_sms_stored result_names_def names_sms_stored)
     (simp add: sms_stored_args_def)

text \<open>
  C5: on an empty field list every legacy custom input is migrated.  The input at
  position \<open>i\<close> becomes the field at position \<open>3 + i\<close> of the output; its name is the slug
  of the label, or of the type, a hyphen and the 1-based position when the label is empty;
  its type is given by the table TEXT to text, TEXTLONG to textarea, NUMBER to number, BOOL
  to boolean, RADIO to radio, PHONE to phone; it is editable by the user; and each of its
  options has the label of the legacy option as its label and as its value.  With the
  slug generator of the spec, the inputs labelled \<open>Company\<close> (TEXT) and unlabelled (NUMBER)
  give the fields \<open>company\<close> and \<open>number-2\<close>.
\<close>

theorem legacy_inputs_migrated:
  assumes "bookingFields a = []"
    and "ensureBookingInputsHaveSystemFields ext a = Inr out"
    and "i < length (customInputs a)"
    and "c = customInputs a ! i"
  shows "3 + i < length out \<and>
    name (out ! (3 + i)) =
      slugify ext (if ci_label c \<noteq> [] then ci_label c
                   else EventTypeCustomInputType_value (ci_type c) @ ''-'' @ string_of_nat (i + 1)) \<and>
    type (out ! (3 + i)) = CustomInputTypeToFieldType (ci_type c) \<and>
    editable (out ! (3 + i)) = Some ed_user \<and>
    options (out ! (3 + i)) = Some (migratedOptions c) \<and>
    list_all (\<lambda>o'. opt_value o' = Some (opt_label o')) (migratedOptions c) \<and>
    map opt_label (migratedOptions c) =
      (case ci_options c of None \<Rightarrow> [] | Some os \<Rightarrow> map opt_label os) \<and>
    map CustomInputTypeToFieldType [TEXT, TEXTLONG, NUMBER, BOOL, RADIO, PHONE] =
      [ft_text, ft_textarea, ft_number, ft_boolean, ft_radio, ft_phone]"
proof -
  from assms(2) have out: "out = reconciled (slugify ext) a"
    by (simp add: ensure_Inr)
  note pos = migrated_position [OF assms(1,3), of "slugify ext", folded out assms(4)]
  note props = migrated_properties [OF pos(2)]
  have "map CustomInputTypeToFieldType [TEXT, TEXTLONG, NUMBER, BOOL, RADIO, PHONE] =
      [ft_text, ft_textarea, ft_number, ft_boolean, ft_radio, ft_phone]"
    by (simp add: CustomInputTypeToFieldType_def)
  with pos(1) props(1-4) migratedOptions_values [of c] migratedOptions_labels [of c]
  show ?thesis
    by (simp only: migratedName_def simp_thms)
qed

theorem legacy_inputs_migrated_witness:
  "bookingFields legacy_args = [] \<and>
   customInputs legacy_args = [company_input, unlabelled_number_input] \<and>
   result_names (ensureBookingInputsHaveSystemFields model_externals legacy_args) =
     Inr [''name'', ''email'', ''location'', ''company'', ''number-2'', ''notes'', ''guests'',
          ''rescheduleReason''] \<and>
   map_option type (result_nth 3 (ensureBookingInputsHaveSystemFields model_externals legacy_args))
     = Some ft_text \<and>
   map_option editable (result_nth 3 (ensureBookingInputsHaveSystemFields model_externals legacy_args))
     = Some (Some ed_user) \<and>
   map_option type (result_nth 4 (ensureBookingInputsHaveSystemFields model_externals legacy_args))
     = Some ft_number \<and>
   map_option editable (result_nth 4 (ensureBookingInputsHaveSystemFields model_externals legacy_args))
     = Some (Some ed_user)"
proof -
  have e: "bookingFields legacy_args = []"
    and c: "customInputs legacy_args = [company_input, unlabelled_number_input]"
    by (simp_all add: legacy_args_def)
  have i0: "0 < length (customInputs legacy_args)" and i1: "1 < length (customInputs legacy_args)"
    by (simp_all add: c)
  have c0: "company_input = customInputs legacy_args ! 0"
    and c1: "unlabelled_number_input = customInputs legacy_args ! 1"
    by (simp_all add: c)
  note first = legacy_inputs_migrated [OF e ensure_legacy i0 c0]
  note second = legacy_inputs_migrated [OF e ensure_legacy i1 c1]
  from first have 3: "3 < length (reconciled slugify_model legacy_args)"
    "type (reconciled slugify_model legacy_args ! 3) = ft_text"
    "editable (reconciled slugify_model legacy_args ! 3) = Some ed_user"
    by (simp_all add: company_input_def CustomInputTypeToFieldType_def)
  from second have 4: "4 < length (reconciled slugify_model legacy_args)"
    "type (reconciled slugify_model legacy_args ! 4) = ft_number"
    "editable (reconciled slugify_model legacy_args ! 4) = Some ed_user"
    by (simp_all add: unlabelled_number_input_def CustomInputTypeToFieldType_def)
  from e c 3 4 show ?thesis
    by (simp add: ensure_legacy result_names_def result_nth_def names_legacy)
qed

text \<open>
  C3: a call on the output of an earlier call returns that output unchanged, whatever the
  other arguments of the second call are (the flags, the legacy inputs and the workflows
  may differ).  Hence no field, system or not, is duplicated, dropped or moved, and
  every property of every field keeps its value; the migration does not run, since the
  output of a call is never empty.
\<close>

theorem rerun_is_noop:
  assumes "ensureBookingInputsHaveSystemFields ext a = Inr out"
  shows "ensureBookingInputsHaveSystemFields ext (a'\<lparr>bookingFields := out\<rparr>) = Inr out"
proof -
  from assms have ok: "brand_ok ext out" and out: "out = reconciled (slugify ext) a"
    by (simp_all add: ensure_Inr)
  have "reconciled (slugify ext) (a'\<lparr>bookingFields := out\<rparr>) = out"
    unfolding out by (rule reconciled_idem) simp
  with ok show ?thesis
    by (simp add: ensure_Inr)
qed

theorem rerun_is_noop_witness:
  "result_names (ensureBookingInputsHaveSystemFields model_externals stored_args) =
     Inr [''name'', ''location'', ''company'', ''email'', ''notes'', ''guests'', ''rescheduleReason''] \<and>
   ensureBookingInputsHaveSystemFields model_externals
     (stored_args\<lparr>disableGuests := False,
        bookingFields := the_result (ensureBookingInputsHaveSystemFields model_externals stored_args)\<rparr>)
   = ensureBookingInputsHaveSystemFields model_externals stored_args"
proof -
  have "the_result (ensureBookingInputsHaveSystemFields model_externals stored_args) =
      reconciled slugify_model stored_args"
    by (simp add: ensure_stored the_result_def)
  with rerun_is_noop [OF ensure_stored, of "stored_args\<lparr>disableGuests := False\<rparr>"]
  show ?thesis
    by (simp add: ensure_stored result_names_def names_stored)
qed

text \<open>
  C9 (as amended): \<open>getBookingFieldsWithSystemFields\<close> first replaces a falsy metadata,
  field list or custom-input list (\<^verbatim>\<open>null\<close>, \<^verbatim>\<open>undefined\<close>, the empty string, zero,
  \<^verbatim>\<open>false\<close>) by the empty object or the empty list, as \<open>or_default\<close> does, and validates
  the values so obtained, metadata first, then the field list, then the custom-input
  list, before it reconciles.  When one of these validations fails, the call fails with
  the error of the first failing validation and returns no list.  A list that is
  returned passed the branded validation of line 427, and all three validations
  succeeded.  The counterexample is a call whose three arguments are present, falsy and
  rejected by their schemas: they are never validated, and the call returns the six
  code-defined fields.
\<close>

theorem input_validation_first:
  "(EventTypeMetaDataSchema_parse ext (or_default (raw_metadata r) (JObj [])) = Inl e \<longrightarrow>
      getBookingFieldsWithSystemFields ext r = Inl e) \<and>
   (EventTypeMetaDataSchema_parse ext (or_default (raw_metadata r) (JObj [])) = Inr m \<and>
    eventTypeBookingFields_parse ext (or_default (raw_bookingFields r) (JArr [])) = Inl e \<longrightarrow>
      getBookingFieldsWithSystemFields ext r = Inl e) \<and>
   (EventTypeMetaDataSchema_parse ext (or_default (raw_metadata r) (JObj [])) = Inr m \<and>
    eventTypeBookingFields_parse ext (or_default (raw_bookingFields r) (JArr [])) = Inr fs \<and>
    customInputSchema_array_parse ext (or_default (raw_customInputs r) (JArr [])) = Inl e \<longrightarrow>
      getBookingFieldsWithSystemFields ext r = Inl e) \<and>
   (getBookingFieldsWithSystemFields ext r = Inr out \<longrightarrow>
      brand_ok ext out \<and>
      \<not> isl (EventTypeMetaDataSchema_parse ext (or_default (raw_metadata r) (JObj []))) \<and>
      \<not> isl (eventTypeBookingFields_parse ext (or_default (raw_bookingFields r) (JArr []))) \<and>
      \<not> isl (customInputSchema_array_parse ext (or_default (raw_customInputs r) (JArr []))))"
proof (intro conjI impI)
  show "getBookingFieldsWithSystemFields ext r = Inl e"
    if "EventTypeMetaDataSchema_parse ext (or_default (raw_metadata r) (JObj [])) = Inl e"
    using that by (simp add: getBookingFieldsWithSystemFields_def)
  show "getBookingFieldsWithSystemFields ext r = Inl e"
    if "EventTypeMetaDataSchema_parse ext (or_default (raw_metadata r) (JObj [])) = Inr m \<and>
        eventTypeBookingFields_parse ext (or_default (raw_bookingFields r) (JArr [])) = Inl e"
    using that by (simp add: getBookingFieldsWithSystemFields_def)
  show "getBookingFieldsWithSystemFields ext r = Inl e"
    if "EventTypeMetaDataSchema_parse ext (or_default (raw_metadata r) (JObj [])) = Inr m \<and>
        eventTypeBookingFields_parse ext (or_default (raw_bookingFields r) (JArr [])) = Inr fs \<and>
        customInputSchema_array_parse ext (or_default (raw_customInputs r) (JArr [])) = Inl e"
    using that by (simp add: getBookingFieldsWithSystemFields_def)
next
  assume ok: "getBookingFieldsWithSystemFields ext r = Inr out"
  then show "brand_ok ext out"
    by (auto simp: getBookingFieldsWithSystemFields_def ensure_Inr split: sum.splits)
  from ok show "\<not> isl (EventTypeMetaDataSchema_parse ext (or_default (raw_metadata r) (JObj [])))"
    by (auto simp: getBookingFieldsWithSystemFields_def split: sum.splits)
  from ok show "\<not> isl (eventTypeBookingFields_parse ext (or_default (raw_bookingFields r) (JArr [])))"
    by (auto simp: getBookingFieldsWithSystemFields_def split: sum.splits)
  from ok show "\<not> isl (customInputSchema_array_parse ext (or_default (raw_customInputs r) (JArr [])))"
    by (auto simp: getBookingFieldsWithSystemFields_def split: sum.splits)
qed

theorem input_validation_first_witness:
  "eventTypeBookingFields_parse model_externals
     (or_default (raw_bookingFields malformed_raw_args) (JArr [])) = Inl ValidationError \<and>
   getBookingFieldsWithSystemFields model_externals malformed_raw_args = Inl ValidationError \<and>
   result_names (getBookingFieldsWithSystemFields model_externals empty_raw_args) =
     Inr [''name'', ''email'', ''location'', ''notes'', ''guests'', ''rescheduleReason''] \<and>
   brand_ok model_externals (the_result (getBookingFieldsWithSystemFields model_externals empty_raw_args))"
proof -
  have m: "EventTypeMetaDataSchema_parse model_externals
      (or_default (raw_metadata malformed_raw_args) (JObj [])) =
        Inr (Some \<lparr>md_additionalNotesRequired = None\<rparr>)"
    by (simp add: malformed_raw_args_def model_externals_def)
  have f: "eventTypeBookingFields_parse model_externals
     (or_default (raw_bookingFields malformed_raw_args) (JArr [])) = Inl ValidationError"
    by (simp add: malformed_raw_args_def model_externals_def or_default_def)
  obtain out where out: "getBookingFieldsWithSystemFields model_externals empty_raw_args = Inr out"
    using get_empty by (cases "getBookingFieldsWithSystemFields model_externals empty_raw_args")
      (simp_all add: result_names_def)
  note bad = input_validation_first [of model_externals malformed_raw_args ValidationError
      "Some \<lparr>md_additionalNotesRequired = None\<rparr>"]
  note good = input_validation_first [of model_externals empty_raw_args _ _ _ out]
  from bad m f have "getBookingFieldsWithSystemFields model_externals malformed_raw_args = Inl ValidationError"
    by blast
  moreover from good out have "brand_ok model_externals out"
    by blast
  ultimately show ?thesis
    using f get_empty out by (simp add: the_result_def)
qed

theorem input_validation_first_counterexample:
  "EventTypeMetaDataSchema_parse model_externals (raw_metadata falsy_raw_args) =
     Inl ValidationError \<and>
   eventTypeBookingFields_parse model_externals (raw_bookingFields falsy_raw_args) =
     Inl ValidationError \<and>
   customInputSchema_array_parse model_externals (raw_customInputs falsy_raw_args) =
     Inl ValidationError \<and>
   result_names (getBookingFieldsWithSystemFields model_externals falsy_raw_args) =
     Inr [''name'', ''email'', ''location'', ''notes'', ''guests'', ''rescheduleReason'']"
proof -
  have "EventTypeMetaDataSchema_parse model_externals (raw_metadata falsy_raw_args) =
      Inl ValidationError"
    "eventTypeBookingFields_parse model_externals (raw_bookingFields falsy_raw_args) =
      Inl ValidationError"
    "customInputSchema_array_parse model_externals (raw_customInputs falsy_raw_args) =
      Inl ValidationError"
    by (simp_all add: falsy_raw_args_def model_externals_def)
  with get_falsy show ?thesis
    by (simp only: simp_thms)
qed

text \<open>
  C10: an absent (\<^verbatim>\<open>null\<close> or \<^verbatim>\<open>undefined\<close>) field list, custom-input list, metadata or
  workflow list is treated as the empty list, or the empty object: the call returns what
  the call with the empty collection in its place returns.  With every one of them absent,
  and schemas that accept the empty array, the empty object and the list of the six
  code-defined system fields, the call succeeds and returns these six fields.
\<close>

theorem absent_arguments_are_empty:
  "getBookingFieldsWithSystemFields ext r =
     getBookingFieldsWithSystemFields ext
       \<lparr>raw_bookingFields = (if nullish (raw_bookingFields r) then JArr [] else raw_bookingFields r),
        raw_disableGuests = raw_disableGuests r,
        raw_customInputs = (if nullish (raw_customInputs r) then JArr [] else raw_customInputs r),
        raw_metadata = (if nullish (raw_metadata r) then JObj [] else raw_metadata r),
        raw_workflows = Some (case raw_workflows r of None \<Rightarrow> [] | Some ws \<Rightarrow> ws)\<rparr> \<and>
   (nullish (raw_bookingFields r) \<and> nullish (raw_customInputs r) \<and> nullish (raw_metadata r) \<and>
    raw_workflows r = None \<and>
    EventTypeMetaDataSchema_parse ext (JObj []) = Inr m \<and>
    eventTypeBookingFields_parse ext (JArr []) = Inr [] \<and>
    customInputSchema_array_parse ext (JArr []) = Inr [] \<and>
    brand_ok ext (map attachFieldTypeConfig
                    (systemBeforeFields @ systemAfterFields (notesRequired m) (raw_disableGuests r))) \<longrightarrow>
    getBookingFieldsWithSystemFields ext r =
      Inr (map attachFieldTypeConfig
             (systemBeforeFields @ systemAfterFields (notesRequired m) (raw_disableGuests r))))"
proof (intro conjI impI)
  have d: "or_default (if nullish j then d else j) d = or_default j d" for j d
    by (cases j) (auto simp: nullish_def or_default_def)
  show "getBookingFieldsWithSystemFields ext r =
     getBookingFieldsWithSystemFields ext
       \<lparr>raw_bookingFields = (if nullish (raw_bookingFields r) then JArr [] else raw_bookingFields r),
        raw_disableGuests = raw_disableGuests r,
        raw_customInputs = (if nullish (raw_customInputs r) then JArr [] else raw_customInputs r),
        raw_metadata = (if nullish (raw_metadata r) then JObj [] else raw_metadata r),
        raw_workflows = Some (case raw_workflows r of None \<Rightarrow> [] | Some ws \<Rightarrow> ws)\<rparr>"
    by (rule get_cong) (simp_all add: d)
next
  assume a: "nullish (raw_bookingFields r) \<and> nullish (raw_customInputs r) \<and> nullish (raw_metadata r) \<and>
    raw_workflows r = None \<and>
    EventTypeMetaDataSchema_parse ext (JObj []) = Inr m \<and>
    eventTypeBookingFields_parse ext (JArr []) = Inr [] \<and>
    customInputSchema_array_parse ext (JArr []) = Inr [] \<and>
    brand_ok ext (map attachFieldTypeConfig
                    (systemBeforeFields @ systemAfterFields (notesRequired m) (raw_disableGuests r)))"
  then show "getBookingFieldsWithSystemFields ext r =
      Inr (map attachFieldTypeConfig
             (systemBeforeFields @ systemAfterFields (notesRequired m) (raw_disableGuests r)))"
    by (simp add: getBookingFieldsWithSystemFields_def or_default_nullish ensure_eq
        reconciled_empty brand_parse_def notesRequired_def)
qed



theorem absent_arguments_are_empty_witness:
  "getBookingFieldsWithSystemFields model_externals absent_raw_args =
     getBookingFieldsWithSystemFields model_externals empty_raw_args \<and>
   result_names (getBookingFieldsWithSystemFields model_externals absent_raw_args) =
     Inr [''name'', ''email'', ''location'', ''notes'', ''guests'', ''rescheduleReason'']"
proof -
  note t = absent_arguments_are_empty [of model_externals absent_raw_args
      "Some \<lparr>md_additionalNotesRequired = None\<rparr>"]
  have n: "nullish (raw_bookingFields absent_raw_args)" "nullish (raw_customInputs absent_raw_args)"
    "nullish (raw_metadata absent_raw_args)" "raw_workflows absent_raw_args = None"
    by (simp_all add: absent_raw_args_def nullish_def)
  have p: "EventTypeMetaDataSchema_parse model_externals (JObj []) =
        Inr (Some \<lparr>md_additionalNotesRequired = None\<rparr>)"
    "eventTypeBookingFields_parse model_externals (JArr []) = Inr []"
    "customInputSchema_array_parse model_externals (JArr []) = Inr []"
    by (simp_all add: model_externals_def)
  have names: "map name (map attachFieldTypeConfig (systemBeforeFields @ systemAfterFields r g)) =
      [''name'', ''email'', ''location'', ''notes'', ''guests'', ''rescheduleReason'']" for r g
    by (simp add: systemBeforeFields_def systemAfterFields_def)
  have b: "brand_ok model_externals (map attachFieldTypeConfig
        (systemBeforeFields @ systemAfterFields (notesRequired (Some \<lparr>md_additionalNotesRequired = None\<rparr>))
           (raw_disableGuests absent_raw_args)))"
    unfolding model_externals_def by (simp add: unique_names_def names del: map_map map_append)
  from t n p b have 1: "getBookingFieldsWithSystemFields model_externals absent_raw_args =
      Inr (map attachFieldTypeConfig
        (systemBeforeFields @ systemAfterFields (notesRequired (Some \<lparr>md_additionalNotesRequired = None\<rparr>))
           (raw_disableGuests absent_raw_args)))"
    by blast
  from t n have 2: "getBookingFieldsWithSystemFields model_externals absent_raw_args =
     getBookingFieldsWithSystemFields model_externals empty_raw_args"
    by (simp add: absent_raw_args_def empty_raw_args_def)
  have 3: "result_names (getBookingFieldsWithSystemFields model_externals absent_raw_args) =
     Inr [''name'', ''email'', ''location'', ''notes'', ''guests'', ''rescheduleReason'']"
    unfolding 1 result_names_def by (simp add: names del: map_map map_append)
  from 2 3 show ?thesis
    by (rule conjI)
qed

end
